theory Spec2Isabelle
  imports Main "HOL-Library.Sublist"
begin

section \<open>Configuration (config.py, app.py lines 12--19)\<close>

text \<open>
  The settings are read from the process environment once, at import time.
  \<open>UNIVERSAL_KEY\<close> is \<open>os.getenv('UNIVERSAL_KEY')\<close>, which is \<open>None\<close> when the
  variable is not set; the three numbers go through \<open>int(...)\<close> and are unbounded
  Python integers. A Python \<open>str\<close> is modelled by its UTF-8 bytes, so a character
  outside ASCII is a run of bytes of 128 and above.
\<close>

record config =
  UNIVERSAL_KEY :: "string option"
  SESSION_TTL_SECONDS :: int
  HTTPS_COOKIES :: int
  API_RATE_LIMIT :: int

definition default_config :: config where
  "default_config =
     \<lparr>UNIVERSAL_KEY = None, SESSION_TTL_SECONDS = 1800, HTTPS_COOKIES = 0, API_RATE_LIMIT = 8\<rparr>"

text \<open>app.py line 14: \<open>HTTPS_COOKIES = config.HTTPS_COOKIES == 1\<close>.\<close>

definition HTTPS_COOKIES_on :: "config \<Rightarrow> bool" where
  "HTTPS_COOKIES_on cfg = (HTTPS_COOKIES cfg = 1)"

definition SESS_PREFIX :: string where
  "SESS_PREFIX = ''sess:''"

definition RL_PREFIX :: string where
  "RL_PREFIX = ''rl:''"

section \<open>Exceptions, requests and responses\<close>

text \<open>
  \<open>HTTPException code description\<close> stands for werkzeug's HTTP errors; the other
  constructors are the exceptions the calls of this program can raise: the Redis client's
  \<open>ConnectionError\<close> (store unreachable) and \<open>ResponseError\<close> (the server refused a
  command), and the \<open>TypeError\<close> of \<open>hmac.compare_digest\<close>. Each carries its internal
  message.
\<close>

datatype exn =
    HTTPException nat string
  | ConnectionError string
  | ResponseError string
  | TypeError string

datatype json =
    JStr string
  | JInt int
  | JBool bool
  | JObj "(string \<times> json) list"

datatype body =
    Json json
  | Text string
  | StaticFile string
  | NoBody

record cookie =
  cookie_name :: string
  cookie_val :: string
  max_age :: "int option"
  expires :: "nat option"
  httponly :: bool
  samesite :: "string option"
  secure :: bool
  cookie_path :: string

text \<open>
  A response as the client sees it: the status, the body, the headers the source names
  (\<open>Location\<close> of a redirect, an explicit \<open>Content-Type\<close>) and the \<open>Set-Cookie\<close>
  headers in the order they were added.
\<close>

record response =
  status :: nat
  body :: body
  headers :: "(string \<times> string) list"
  set_cookies :: "cookie list"

record request =
  path :: string
  remote_addr :: "string option"
  cookies :: "string \<rightharpoonup> string"
  form :: "string \<rightharpoonup> string"

text \<open>\<open>jsonify(obj), code\<close> and \<open>"text", code\<close> as view results.\<close>

definition jsonify :: "nat \<Rightarrow> json \<Rightarrow> response" where
  "jsonify code j = \<lparr>status = code, body = Json j, headers = [], set_cookies = []\<rparr>"

definition text_response :: "nat \<Rightarrow> string \<Rightarrow> response" where
  "text_response code s = \<lparr>status = code, body = Text s, headers = [], set_cookies = []\<rparr>"

text \<open>
  Modelled from the spec: \<open>redirect\<close> is werkzeug's, called with a location only; the
  interface table of the spec gives the status of these redirects as 302.
\<close>

definition redirect :: "string \<Rightarrow> response" where
  "redirect loc =
     \<lparr>status = 302, body = NoBody, headers = [(''Location'', loc)], set_cookies = []\<rparr>"

text \<open>
  \<open>app.send_static_file(name)\<close>: the file \<open>name\<close> of the \<open>client/\<close> directory, which
  is not among the sources; its files are taken to exist.
\<close>

definition send_static_file :: "string \<Rightarrow> response" where
  "send_static_file name =
     \<lparr>status = 200, body = StaticFile name, headers = [], set_cookies = []\<rparr>"

text \<open>Python truthiness of an optional string: \<open>None\<close> and \<open>""\<close> are false.\<close>

definition truthy :: "string option \<Rightarrow> bool" where
  "truthy s = (case s of None \<Rightarrow> False | Some x \<Rightarrow> x \<noteq> [])"

text \<open>\<open>s or d\<close> for an optional string \<open>s\<close>.\<close>

definition or_else :: "string option \<Rightarrow> string \<Rightarrow> string" where
  "or_else s d = (case s of None \<Rightarrow> d | Some x \<Rightarrow> if x = [] then d else x)"

section \<open>The key-value store\<close>

text \<open>
  The only state of the application is the Redis store. An entry is an integer (the
  program only ever writes \<open>"1"\<close> and counters) with an optional absolute expiry time.
  The clock counts milliseconds. An entry whose expiry time has been reached is invisible
  to every command; the map may still hold it.
\<close>

type_synonym entry = "int \<times> nat option"

type_synonym store = "string \<rightharpoonup> entry"

record world =
  reachable :: bool
  now :: nat
  kv :: store

definition advance :: "nat \<Rightarrow> world \<Rightarrow> world" where
  "advance d w = w\<lparr>now := now w + d\<rparr>"

definition live :: "nat \<Rightarrow> store \<Rightarrow> string \<Rightarrow> entry option" where
  "live t s k =
     (case s k of
        None \<Rightarrow> None
      | Some (v, e) \<Rightarrow>
          (case e of
             None \<Rightarrow> Some (v, e)
           | Some x \<Rightarrow> if x \<le> t then None else Some (v, e)))"

definition lookup :: "world \<Rightarrow> string \<Rightarrow> entry option" where
  "lookup w k = live (now w) (kv w) k"

subsection \<open>Commands as the server executes them\<close>

text \<open>
  \<open>SETEX key seconds value\<close> refuses a non-positive time. \<open>EXISTS\<close> counts the key.
  \<open>TTL\<close> answers -2 for no key, -1 for a key without expiry, and otherwise the remaining
  time rounded to the nearest second. \<open>DEL\<close> answers the number of keys removed.
  \<open>INCR\<close> creates a missing key with value 1 and no expiry, keeps the expiry of an
  existing one, and refuses to leave the signed 64-bit range. \<open>EXPIRE\<close> sets the expiry
  of an existing key and answers 1, or answers 0.
\<close>

definition SETEX :: "nat \<Rightarrow> string \<Rightarrow> int \<Rightarrow> int \<Rightarrow> store \<Rightarrow> (string + unit) \<times> store" where
  "SETEX t k secs v s =
     (if secs \<le> 0 then (Inl ''invalid expire time in setex'', s)
      else (Inr (), s(k \<mapsto> (v, Some (t + nat secs * 1000)))))"

definition EXISTS :: "nat \<Rightarrow> string \<Rightarrow> store \<Rightarrow> int" where
  "EXISTS t k s = (case live t s k of None \<Rightarrow> 0 | Some _ \<Rightarrow> 1)"

definition TTL :: "nat \<Rightarrow> string \<Rightarrow> store \<Rightarrow> int" where
  "TTL t k s =
     (case live t s k of
        None \<Rightarrow> - 2
      | Some (v, None) \<Rightarrow> - 1
      | Some (v, Some x) \<Rightarrow> int ((x - t + 500) div 1000))"

definition DEL :: "nat \<Rightarrow> string \<Rightarrow> store \<Rightarrow> int \<times> store" where
  "DEL t k s = (case live t s k of None \<Rightarrow> (0, s) | Some _ \<Rightarrow> (1, s(k := None)))"

definition INT64_MAX :: int where
  "INT64_MAX = 9223372036854775807"

definition INCR :: "nat \<Rightarrow> string \<Rightarrow> store \<Rightarrow> (string + int) \<times> store" where
  "INCR t k s =
     (case live t s k of
        None \<Rightarrow> (Inr 1, s(k \<mapsto> (1, None)))
      | Some (v, e) \<Rightarrow>
          if v \<ge> INT64_MAX then (Inl ''increment or decrement would overflow'', s)
          else (Inr (v + 1), s(k \<mapsto> (v + 1, e))))"

definition EXPIRE :: "nat \<Rightarrow> string \<Rightarrow> nat \<Rightarrow> store \<Rightarrow> int \<times> store" where
  "EXPIRE t k secs s =
     (case live t s k of
        None \<Rightarrow> (0, s)
      | Some (v, e) \<Rightarrow> (1, s(k \<mapsto> (v, Some (t + secs * 1000)))))"

subsection \<open>Calls of the client \<open>rds\<close>\<close>

text \<open>
  A call raises \<open>ConnectionError\<close> when the store is unreachable and leaves it as it was;
  a command the server refuses raises \<open>ResponseError\<close>.
\<close>

definition unreachable_error :: exn where
  "unreachable_error = ConnectionError ''Error connecting to Redis''"

definition rds_setex :: "string \<Rightarrow> int \<Rightarrow> int \<Rightarrow> world \<Rightarrow> (exn + unit) \<times> world" where
  "rds_setex k secs v w =
     (if \<not> reachable w then (Inl unreachable_error, w)
      else (case SETEX (now w) k secs v (kv w) of
              (Inl m, s) \<Rightarrow> (Inl (ResponseError m), w\<lparr>kv := s\<rparr>)
            | (Inr u, s) \<Rightarrow> (Inr u, w\<lparr>kv := s\<rparr>)))"

definition rds_exists :: "string \<Rightarrow> world \<Rightarrow> exn + int" where
  "rds_exists k w =
     (if \<not> reachable w then Inl unreachable_error else Inr (EXISTS (now w) k (kv w)))"

definition rds_ttl :: "string \<Rightarrow> world \<Rightarrow> exn + int" where
  "rds_ttl k w =
     (if \<not> reachable w then Inl unreachable_error else Inr (TTL (now w) k (kv w)))"

definition rds_delete :: "string \<Rightarrow> world \<Rightarrow> (exn + int) \<times> world" where
  "rds_delete k w =
     (if \<not> reachable w then (Inl unreachable_error, w)
      else (case DEL (now w) k (kv w) of (n, s) \<Rightarrow> (Inr n, w\<lparr>kv := s\<rparr>)))"

text \<open>
  \<open>pipe = rds.pipeline(); pipe.incr(key); pipe.expire(key, 60); pipe.execute()\<close>: the
  client's pipeline is a transaction, so the server runs both commands one after the other
  with nothing in between. Both run even when the first is refused; \<open>execute\<close> then
  raises the refusal, and otherwise returns both answers.
\<close>

definition pipeline_incr_expire :: "string \<Rightarrow> nat \<Rightarrow> world \<Rightarrow> (exn + int \<times> int) \<times> world" where
  "pipeline_incr_expire k secs w =
     (if \<not> reachable w then (Inl unreachable_error, w)
      else (case INCR (now w) k (kv w) of
              (r1, s1) \<Rightarrow>
                (case EXPIRE (now w) k secs s1 of
                   (r2, s2) \<Rightarrow>
                     (case r1 of
                        Inl m \<Rightarrow> (Inl (ResponseError m), w\<lparr>kv := s2\<rparr>)
                      | Inr c \<Rightarrow> (Inr (c, r2), w\<lparr>kv := s2\<rparr>)))))"

section \<open>Session store helpers (app.py lines 42--65)\<close>

definition session_set :: "string \<Rightarrow> int \<Rightarrow> world \<Rightarrow> (exn + unit) \<times> world" where
  "session_set session_id ttl w = rds_setex (SESS_PREFIX @ session_id) ttl 1 w"

definition session_valid :: "string option \<Rightarrow> world \<Rightarrow> exn + bool" where
  "session_valid session_id w =
     (case session_id of
        None \<Rightarrow> Inr False
      | Some s \<Rightarrow>
          if s = [] then Inr False
          else (case rds_exists (SESS_PREFIX @ s) w of
                  Inl e \<Rightarrow> Inl e
                | Inr n \<Rightarrow> Inr (n = 1)))"

definition session_ttl :: "string option \<Rightarrow> world \<Rightarrow> exn + int" where
  "session_ttl sid w =
     (case sid of
        None \<Rightarrow> Inr (- 2)
      | Some s \<Rightarrow> if s = [] then Inr (- 2) else rds_ttl (SESS_PREFIX @ s) w)"

definition session_delete :: "string option \<Rightarrow> world \<Rightarrow> (exn + unit) \<times> world" where
  "session_delete session_id w =
     (case session_id of
        None \<Rightarrow> (Inr (), w)
      | Some s \<Rightarrow>
          if s = [] then (Inr (), w)
          else (case rds_delete (SESS_PREFIX @ s) w of
                  (Inl e, w') \<Rightarrow> (Inl e, w')
                | (Inr n, w') \<Rightarrow> (Inr (), w')))"

definition rl_key :: "string \<Rightarrow> string" where
  "rl_key ip = RL_PREFIX @ ''login:'' @ (if ip = [] then ''unknown'' else ip)"

definition rate_limit_login :: "config \<Rightarrow> string \<Rightarrow> world \<Rightarrow> (exn + bool) \<times> world" where
  "rate_limit_login cfg ip w =
     (case pipeline_incr_expire (rl_key ip) 60 w of
        (Inl e, w') \<Rightarrow> (Inl e, w')
      | (Inr (count, r), w') \<Rightarrow> (Inr (count \<le> API_RATE_LIMIT cfg), w'))"

section \<open>Cookie helpers (app.py lines 68--81)\<close>

text \<open>
  \<open>hmac.compare_digest\<close> on two \<open>str\<close> arguments accepts ASCII only and raises
  \<open>TypeError\<close> otherwise (Python library reference, \<open>hmac.compare_digest\<close>: "either
  str (ASCII only ...) or a bytes-like object"); on ASCII strings it returns \<open>a == b\<close>.
\<close>

definition isascii :: "string \<Rightarrow> bool" where
  "isascii s = list_all (\<lambda>c. (of_char c :: nat) < 128) s"

definition compare_digest :: "string \<Rightarrow> string \<Rightarrow> exn + bool" where
  "compare_digest a b =
     (if isascii a \<and> isascii b then Inr (a = b)
      else Inl (TypeError ''comparing strings with non-ASCII characters is not supported''))"

text \<open>\<open>_consttime_eq(a, b)\<close>: \<open>a\<close> is the submitted form field, \<open>b\<close> the configured key.\<close>

definition consttime_eq :: "string \<Rightarrow> string option \<Rightarrow> exn + bool" where
  "consttime_eq a b = compare_digest (or_else (Some a) []) (or_else b [])"

definition set_session_cookie :: "config \<Rightarrow> response \<Rightarrow> string \<Rightarrow> response" where
  "set_session_cookie cfg resp sid =
     resp\<lparr>set_cookies := set_cookies resp @
       [\<lparr>cookie_name = ''auth_session'', cookie_val = sid,
         max_age = Some (SESSION_TTL_SECONDS cfg), expires = None,
         httponly = True, samesite = Some ''Lax'',
         secure = HTTPS_COOKIES_on cfg, cookie_path = ''/''\<rparr>]\<rparr>"

text \<open>
  \<open>resp.delete_cookie("auth_session", path="/")\<close> adds a \<open>Set-Cookie\<close> with an empty
  value, \<open>max_age = 0\<close> and an expiry date at the epoch.
\<close>

definition clear_session_cookie :: "response \<Rightarrow> response" where
  "clear_session_cookie resp =
     resp\<lparr>set_cookies := set_cookies resp @
       [\<lparr>cookie_name = ''auth_session'', cookie_val = [],
         max_age = Some 0, expires = Some 0,
         httponly = False, samesite = None,
         secure = False, cookie_path = ''/''\<rparr>]\<rparr>"

section \<open>Views (app.py lines 83--168)\<close>

text \<open>
  A view takes the request and the state of the world and either raises or returns a
  response, with the new state in both cases.
\<close>

type_synonym view = "request \<Rightarrow> world \<Rightarrow> (exn + response) \<times> world"

definition require_session :: "view \<Rightarrow> view" where
  "require_session fn rq w =
     (let sid = cookies rq ''auth_session'' in
      case session_valid sid w of
        Inl e \<Rightarrow> (Inl e, w)
      | Inr ok \<Rightarrow>
          if \<not> ok then
            (if prefix ''/api/'' (path rq) then
               (Inr (jsonify 401 (JObj [(''error'', JStr ''unauthorized'')])), w)
             else (Inr (redirect ''/login''), w))
          else fn rq w)"

definition login_page :: response where
  "login_page =
     (send_static_file ''login.html'')
       \<lparr>status := 200, headers := [(''Content-Type'', ''text/html; charset=utf-8'')]\<rparr>"

definition loading_page :: response where
  "loading_page =
     (send_static_file ''loading.html'')
       \<lparr>status := 200, headers := [(''Content-Type'', ''text/html; charset=utf-8'')]\<rparr>"

definition root_decider :: view where
  "root_decider rq w =
     (let sid = cookies rq ''auth_session'' in
      if \<not> truthy sid then (Inr login_page, w) else (Inr loading_page, w))"

definition login_get :: view where
  "login_get rq w = (Inr login_page, w)"

definition auth_check :: view where
  "auth_check rq w =
     (let sid = cookies rq ''auth_session'' in
      case session_valid sid w of
        Inl e \<Rightarrow> (Inl e, w)
      | Inr ok \<Rightarrow>
          if ok then
            (case session_ttl sid w of
               Inl e \<Rightarrow> (Inl e, w)
             | Inr ttl \<Rightarrow>
                 (Inr (jsonify 200 (JObj [(''ok'', JBool True), (''ttl'', JInt ttl)])), w))
          else (Inr (jsonify 401 (JObj [(''ok'', JBool False)])), w))"

text \<open>
  \<open>login\<close> takes as \<open>tok\<close> the value \<open>secrets.token_urlsafe(32)\<close> returns when the
  view calls it. \<open>time.sleep(0.4)\<close> moves the clock by 400 milliseconds.
\<close>

definition too_many :: response where
  "too_many = text_response 429 ''Terlalu banyak percobaan gagal. Coba lagi setelah sesaat.''"

definition wrong_key :: response where
  "wrong_key = text_response 401 ''Kode akses salah.''"

definition login :: "config \<Rightarrow> string \<Rightarrow> view" where
  "login cfg tok rq w =
     (case rate_limit_login cfg (or_else (remote_addr rq) ''unknown'') w of
        (Inl e, w1) \<Rightarrow> (Inl e, w1)
      | (Inr allowed, w1) \<Rightarrow>
          if \<not> allowed then (Inr too_many, w1)
          else
            (let key = (case form rq ''key'' of None \<Rightarrow> [] | Some v \<Rightarrow> v) in
             case consttime_eq key (UNIVERSAL_KEY cfg) of
               Inl e \<Rightarrow> (Inl e, w1)
             | Inr eq \<Rightarrow>
                 if \<not> eq then (Inr wrong_key, advance 400 w1)
                 else
                   (case session_set tok (SESSION_TTL_SECONDS cfg) w1 of
                      (Inl e, w2) \<Rightarrow> (Inl e, w2)
                    | (Inr u, w2) \<Rightarrow>
                        (Inr (set_session_cookie cfg (redirect ''/'') tok), w2))))"

definition logout :: view where
  "logout rq w =
     (let sid = cookies rq ''auth_session'' in
      case (if truthy sid then session_delete sid w else (Inr (), w)) of
        (Inl e, w') \<Rightarrow> (Inl e, w')
      | (Inr u, w') \<Rightarrow> (Inr (clear_session_cookie (redirect ''/'')), w'))"

definition handle_index :: view where
  "handle_index rq w = (Inr (redirect ''/''), w)"

definition handle_loading :: view where
  "handle_loading rq w = (Inr (redirect ''/''), w)"

definition form_index :: view where
  "form_index = require_session (\<lambda>rq w. (Inr (send_static_file ''index.html''), w))"

definition js :: view where
  "js = require_session (\<lambda>rq w. (Inr (send_static_file ''script.js''), w))"

definition css :: view where
  "css = require_session (\<lambda>rq w. (Inr (send_static_file ''style.css''), w))"

section \<open>The error handler (app.py lines 227--232)\<close>

definition on_error :: "exn \<Rightarrow> response" where
  "on_error e =
     (case e of
        HTTPException code description \<Rightarrow> jsonify code (JObj [(''error'', JStr description)])
      | _ \<Rightarrow> jsonify 500 (JObj [(''error'', JStr ''internal server error'')]))"

text \<open>
  The handler is registered for \<open>Exception\<close>, so whatever a view raises is turned into
  the response of \<open>on_error\<close>; \<open>serve\<close> is a view as the client sees it.
\<close>

definition serve :: "view \<Rightarrow> request \<Rightarrow> world \<Rightarrow> response \<times> world" where
  "serve v rq w = (case v rq w of (Inl e, w') \<Rightarrow> (on_error e, w') | (Inr r, w') \<Rightarrow> (r, w'))"

section \<open>Vocabulary of the properties\<close>

text \<open>
  A cookie value names a valid session when it is a non-empty string whose key the store
  holds and has not expired.
\<close>

definition session_live :: "world \<Rightarrow> string option \<Rightarrow> bool" where
  "session_live w sid =
     (case sid of None \<Rightarrow> False | Some s \<Rightarrow> s \<noteq> [] \<and> lookup w (SESS_PREFIX @ s) \<noteq> None)"

text \<open>The login attempts the store has counted for an address in the running window.\<close>

definition counter :: "world \<Rightarrow> string \<Rightarrow> int" where
  "counter w ip = (case lookup w (rl_key ip) of None \<Rightarrow> 0 | Some (v, e) \<Rightarrow> v)"

text \<open>The address a login request is counted under: \<open>request.remote_addr or "unknown"\<close>.\<close>

definition client_ip :: "request \<Rightarrow> string" where
  "client_ip rq = or_else (remote_addr rq) ''unknown''"

text \<open>The key a login request submits: \<open>request.form.get("key", "")\<close>.\<close>

definition submitted_key :: "request \<Rightarrow> string" where
  "submitted_key rq = (case form rq ''key'' of None \<Rightarrow> [] | Some v \<Rightarrow> v)"

text \<open>
  A run of login requests of one client after the other: each element is the token the
  server would draw, the request, and the time that passes between its response and the
  arrival of the next request.
\<close>

fun login_run :: "config \<Rightarrow> (string \<times> request \<times> nat) list \<Rightarrow> world \<Rightarrow> response list \<times> world" where
  "login_run cfg [] w = ([], w)"
| "login_run cfg ((tok, rq, d) # rest) w =
     (case serve (login cfg tok) rq w of
        (r, w1) \<Rightarrow>
          (case login_run cfg rest (advance d w1) of
             (rs, w2) \<Rightarrow> (r # rs, w2)))"

text \<open>
  The states the store can be in: it starts empty, time passes, the connection to it
  comes and goes, and \<open>login\<close> and \<open>logout\<close> are the only views that write to it.
\<close>

inductive reach :: "config \<Rightarrow> world \<Rightarrow> bool" for cfg :: config where
  start: "reach cfg \<lparr>reachable = up, now = t, kv = Map.empty\<rparr>"
| elapse: "reach cfg w \<Longrightarrow> reach cfg (advance d w)"
| link: "reach cfg w \<Longrightarrow> reach cfg (w\<lparr>reachable := up\<rparr>)"
| login_step: "reach cfg w \<Longrightarrow> reach cfg (snd (login cfg tok rq w))"
| logout_step: "reach cfg w \<Longrightarrow> reach cfg (snd (logout rq w))"

text \<open>Every session key holds 1 and expires within the configured lifetime.\<close>

definition sess_inv :: "config \<Rightarrow> world \<Rightarrow> bool" where
  "sess_inv cfg w =
     (\<forall>sid v e. kv w (SESS_PREFIX @ sid) = Some (v, e) \<longrightarrow>
        v = 1 \<and> (\<exists>x. e = Some x \<and> x \<le> now w + nat (SESSION_TTL_SECONDS cfg) * 1000))"

text \<open>
  The counter of an address inside the window that began at time \<open>T\<close>: the store
  answers, the clock has reached \<open>T\<close>, and the key is either absent with no attempt
  counted, or holds the count \<open>c\<close> and does not expire before \<open>T\<close> plus 60 seconds.
\<close>

definition in_window :: "string \<Rightarrow> int \<Rightarrow> nat \<Rightarrow> world \<Rightarrow> bool" where
  "in_window ip c T w =
     (reachable w \<and> T \<le> now w \<and>
      ((c = 0 \<and> lookup w (rl_key ip) = None) \<or>
       (\<exists>e. kv w (rl_key ip) = Some (c, Some e) \<and> T + 60000 \<le> e)))"

section \<open>Sample configuration, requests and states\<close>

text \<open>Concrete inputs on which the theorems below are instantiated.\<close>

definition demo_config :: config where
  "demo_config = default_config\<lparr>UNIVERSAL_KEY := Some ''s3cret''\<rparr>"

definition start_world :: world where
  "start_world = \<lparr>reachable = True, now = 0, kv = Map.empty\<rparr>"

definition login_request :: "string \<Rightarrow> request" where
  "login_request key =
     \<lparr>path = ''/auth/login'', remote_addr = Some ''10.0.0.1'', cookies = Map.empty,
      form = [''key'' \<mapsto> key]\<rparr>"

definition session_request :: "string \<Rightarrow> string \<Rightarrow> request" where
  "session_request p sid =
     \<lparr>path = p, remote_addr = Some ''10.0.0.1'', cookies = [''auth_session'' \<mapsto> sid],
      form = Map.empty\<rparr>"

definition anonymous_request :: "string \<Rightarrow> request" where
  "anonymous_request p =
     \<lparr>path = p, remote_addr = Some ''10.0.0.1'', cookies = Map.empty, form = Map.empty\<rparr>"

text \<open>The state after one successful login at time 0 that drew the token \<open>tok\<close>.\<close>

definition logged_in :: world where
  "logged_in = snd (login demo_config ''tok'' (login_request ''s3cret'') start_world)"

text \<open>
  Eight login attempts with a wrong key from the same address, each followed by a second
  of waiting.
\<close>

definition wrong_attempts :: "(string \<times> request \<times> nat) list" where
  "wrong_attempts = replicate 8 (''unused'', login_request ''guess'', 1000)"

section \<open>Facts about the store and the session helpers\<close>

lemma EXISTS_lookup: "EXISTS (now w) k (kv w) = (if lookup w k = None then 0 else 1)"
  by (simp add: EXISTS_def lookup_def split: option.splits)

lemma session_valid_falsy: "\<not> truthy sid \<Longrightarrow> session_valid sid w = Inr False"
  by (simp add: session_valid_def truthy_def split: option.splits)

lemma session_valid_reachable: "reachable w \<Longrightarrow> session_valid sid w = Inr (session_live w sid)"
  by (simp add: session_valid_def session_live_def rds_exists_def EXISTS_lookup
      split: option.splits)

lemma session_valid_unreachable:
  "\<not> reachable w \<Longrightarrow> truthy sid \<Longrightarrow> session_valid sid w = Inl unreachable_error"
  by (simp add: session_valid_def truthy_def rds_exists_def split: option.splits)

lemma session_live_truthy: "session_live w sid \<Longrightarrow> truthy sid"
  by (simp add: session_live_def truthy_def split: option.splits)

section \<open>What the views do to the store\<close>

text \<open>
  The rate limiter writes its own key only; \<open>login\<close> writes the limiter's key and, on
  success, the key of the new session; \<open>logout\<close> only removes. The clock never runs
  backwards. By rule induction every reachable state satisfies \<open>sess_inv\<close>.
\<close>

lemma sess_key_not_rl: "SESS_PREFIX @ sid \<noteq> rl_key ip"
  by (simp add: SESS_PREFIX_def rl_key_def RL_PREFIX_def)

lemma pipeline_kv:
  "k \<noteq> key \<Longrightarrow> kv (snd (pipeline_incr_expire key secs w)) k = kv w k"
  by (auto simp: pipeline_incr_expire_def INCR_def EXPIRE_def live_def
      split: option.splits prod.splits sum.splits if_splits)

lemma pipeline_now: "now (snd (pipeline_incr_expire key secs w)) = now w"
  by (auto simp: pipeline_incr_expire_def INCR_def EXPIRE_def
      split: option.splits prod.splits sum.splits if_splits)

lemma pipeline_reachable: "reachable (snd (pipeline_incr_expire key secs w)) = reachable w"
  by (auto simp: pipeline_incr_expire_def INCR_def EXPIRE_def
      split: option.splits prod.splits sum.splits if_splits)

lemma rate_limit_kv: "k \<noteq> rl_key ip \<Longrightarrow> kv (snd (rate_limit_login cfg ip w)) k = kv w k"
  using pipeline_kv [of k "rl_key ip" 60 w]
  by (auto simp: rate_limit_login_def split: prod.splits sum.splits)

lemma rate_limit_now: "now (snd (rate_limit_login cfg ip w)) = now w"
  using pipeline_now [of "rl_key ip" 60 w]
  by (auto simp: rate_limit_login_def split: prod.splits sum.splits)

lemma rate_limit_reachable: "reachable (snd (rate_limit_login cfg ip w)) = reachable w"
  using pipeline_reachable [of "rl_key ip" 60 w]
  by (auto simp: rate_limit_login_def split: prod.splits sum.splits)

lemma session_set_kv:
  "kv (snd (session_set tok ttl w)) k = kv w k \<or>
   (k = SESS_PREFIX @ tok \<and> kv (snd (session_set tok ttl w)) k = Some (1, Some (now w + nat ttl * 1000)))"
  by (auto simp: session_set_def rds_setex_def SETEX_def split: prod.splits sum.splits)

lemma session_set_now: "now (snd (session_set tok ttl w)) = now w"
  by (auto simp: session_set_def rds_setex_def SETEX_def split: prod.splits sum.splits)

lemma login_cases:
  "snd (login cfg tok rq w) = snd (rate_limit_login cfg (client_ip rq) w) \<or>
   snd (login cfg tok rq w) = advance 400 (snd (rate_limit_login cfg (client_ip rq) w)) \<or>
   snd (login cfg tok rq w) =
     snd (session_set tok (SESSION_TTL_SECONDS cfg) (snd (rate_limit_login cfg (client_ip rq) w)))"
  by (auto simp: login_def client_ip_def Let_def split: prod.splits sum.splits)

lemma login_now: "now w \<le> now (snd (login cfg tok rq w))"
  using login_cases [of cfg tok rq w]
  by (auto simp: rate_limit_now session_set_now advance_def)

lemma login_sess_kv:
  "kv (snd (login cfg tok rq w)) (SESS_PREFIX @ sid) = kv w (SESS_PREFIX @ sid) \<or>
   kv (snd (login cfg tok rq w)) (SESS_PREFIX @ sid) =
     Some (1, Some (now w + nat (SESSION_TTL_SECONDS cfg) * 1000))"
  using login_cases [of cfg tok rq w]
    session_set_kv [of tok "SESSION_TTL_SECONDS cfg" "snd (rate_limit_login cfg (client_ip rq) w)" "SESS_PREFIX @ sid"]
  by (auto simp: rate_limit_now rate_limit_kv sess_key_not_rl advance_def)

lemma logout_kv:
  "kv (snd (logout rq w)) k = kv w k \<or> kv (snd (logout rq w)) k = None"
  by (auto simp: logout_def session_delete_def rds_delete_def DEL_def Let_def
      split: prod.splits sum.splits option.splits if_splits)

lemma logout_now: "now (snd (logout rq w)) = now w"
  by (auto simp: logout_def session_delete_def rds_delete_def DEL_def Let_def
      split: prod.splits sum.splits option.splits if_splits)

lemma reach_sess_inv: "reach cfg w \<Longrightarrow> sess_inv cfg w"
proof (induction rule: reach.induct)
  case (start up t)
  show ?case by (simp add: sess_inv_def)
next
  case (elapse w d)
  then show ?case by (fastforce simp: sess_inv_def advance_def)
next
  case (link w up)
  then show ?case by (simp add: sess_inv_def)
next
  case (login_step w tok rq)
  show ?case
    unfolding sess_inv_def
  proof (intro allI impI)
    fix sid v e
    assume h: "kv (snd (login cfg tok rq w)) (SESS_PREFIX @ sid) = Some (v, e)"
    from login_sess_kv [of cfg tok rq w sid] h
    consider "kv w (SESS_PREFIX @ sid) = Some (v, e)"
      | "(v, e) = (1, Some (now w + nat (SESSION_TTL_SECONDS cfg) * 1000))"
      by auto
    then show "v = 1 \<and> (\<exists>x. e = Some x \<and> x \<le> now (snd (login cfg tok rq w)) + nat (SESSION_TTL_SECONDS cfg) * 1000)"
    proof cases
      case 1
      with login_step.IH have "v = 1 \<and> (\<exists>x. e = Some x \<and> x \<le> now w + nat (SESSION_TTL_SECONDS cfg) * 1000)"
        by (simp add: sess_inv_def)
      with login_now [of w cfg tok rq] show ?thesis by auto
    next
      case 2
      with login_now [of w cfg tok rq] show ?thesis by auto
    qed
  qed
next
  case (logout_step w rq)
  show ?case
    unfolding sess_inv_def
  proof (intro allI impI)
    fix sid v e
    assume h: "kv (snd (logout rq w)) (SESS_PREFIX @ sid) = Some (v, e)"
    with logout_kv [of rq w "SESS_PREFIX @ sid"] have "kv w (SESS_PREFIX @ sid) = Some (v, e)"
      by auto
    with logout_step.IH show "v = 1 \<and> (\<exists>x. e = Some x \<and> x \<le> now (snd (logout rq w)) + nat (SESSION_TTL_SECONDS cfg) * 1000)"
      by (simp add: sess_inv_def logout_now)
  qed
qed

section \<open>Evaluating the sample inputs\<close>

lemmas store_defs = pipeline_incr_expire_def INCR_def EXPIRE_def live_def SETEX_def DEL_def
  EXISTS_def TTL_def rds_setex_def rds_exists_def rds_ttl_def rds_delete_def lookup_def
  INT64_MAX_def SESS_PREFIX_def RL_PREFIX_def rl_key_def

lemmas app_defs = session_set_def session_valid_def session_ttl_def session_delete_def
  rate_limit_login_def isascii_def compare_digest_def consttime_eq_def or_else_def truthy_def
  set_session_cookie_def clear_session_cookie_def redirect_def jsonify_def text_response_def
  send_static_file_def advance_def

lemmas sample_defs = demo_config_def default_config_def start_world_def login_request_def
  session_request_def anonymous_request_def

lemma logged_in_eq:
  "logged_in = \<lparr>reachable = True, now = 0,
      kv = [''rl:login:10.0.0.1'' \<mapsto> (1, Some 60000), ''sess:tok'' \<mapsto> (1, Some 1800000)]\<rparr>"
  by (simp add: logged_in_def login_def store_defs app_defs sample_defs)

lemma reach_logged_in: "reach demo_config logged_in"
  unfolding logged_in_def start_world_def by (intro reach.login_step reach.start)

lemma TTL_bounds:
  assumes "live t s k = Some (v, Some x)" and "x \<le> t + n * 1000"
  shows "TTL t k s = int ((x - t + 500) div 1000) \<and> 0 \<le> TTL t k s \<and> TTL t k s \<le> int n"
proof -
  have "(x - t + 500) div 1000 \<le> n" using assms(2) by linarith
  with assms(1) show ?thesis by (simp add: TTL_def)
qed

lemma live_SomeD: "live t s k = Some (v, e) \<Longrightarrow> s k = Some (v, e)"
  by (auto simp: live_def split: option.splits if_splits)

lemma sess_invD:
  "sess_inv cfg w \<Longrightarrow> kv w (SESS_PREFIX @ sid) = Some (v, e) \<Longrightarrow>
   v = 1 \<and> (\<exists>x. e = Some x \<and> x \<le> now w + nat (SESSION_TTL_SECONDS cfg) * 1000)"
  unfolding sess_inv_def by blast

section \<open>The auth gate\<close>

text \<open>
  Claim C1. Let \<open>fn\<close> be any handler wrapped by \<open>require_session\<close>. Provided the store
  answers, or the request has no (or an empty) \<open>auth_session\<close> cookie so that the store is
  not asked: when the cookie names a valid session the result is exactly that of
  \<open>fn\<close> on the same request and state; otherwise (cookie missing or empty, key absent or
  expired) the store is left as it is and the answer is the 401 with the JSON body
  \<open>{"error": "unauthorized"}\<close> for a path that starts with \<open>/api/\<close>, and the redirect to
  \<open>/login\<close> for any other path.
\<close>

theorem require_session_gate:
  assumes "reachable w \<or> \<not> truthy (cookies rq ''auth_session'')"
  shows "require_session fn rq w =
           (if session_live w (cookies rq ''auth_session'') then fn rq w
            else if prefix ''/api/'' (path rq) then
              (Inr (jsonify 401 (JObj [(''error'', JStr ''unauthorized'')])), w)
            else (Inr (redirect ''/login''), w))"
proof (cases "truthy (cookies rq ''auth_session'')")
  case True
  with assms have "reachable w" by simp
  then show ?thesis
    by (simp add: require_session_def session_valid_reachable)
next
  case False
  then have "\<not> session_live w (cookies rq ''auth_session'')"
    using session_live_truthy by blast
  with False show ?thesis
    by (simp add: require_session_def session_valid_falsy)
qed

theorem require_session_gate_witness:
  "reachable logged_in
   \<and> session_live logged_in (Some ''tok'')
   \<and> require_session (\<lambda>rq w. (Inr (send_static_file ''index.html''), w))
        (session_request ''/form'' ''tok'') logged_in
       = (Inr (send_static_file ''index.html''), logged_in)
   \<and> require_session (\<lambda>rq w. (Inr (send_static_file ''index.html''), w))
        (session_request ''/form'' ''tok'') (advance 1800000 logged_in)
       = (Inr (redirect ''/login''), advance 1800000 logged_in)
   \<and> require_session (\<lambda>rq w. (Inr (send_static_file ''index.html''), w))
        (anonymous_request ''/api/append-to-sheet'') (logged_in\<lparr>reachable := False\<rparr>)
       = (Inr (jsonify 401 (JObj [(''error'', JStr ''unauthorized'')])),
          logged_in\<lparr>reachable := False\<rparr>)"
proof -
  have a: "reachable logged_in" by (simp add: logged_in_eq)
  have b: "session_live logged_in (Some ''tok'')"
    by (simp add: logged_in_eq session_live_def store_defs)
  have c: "require_session (\<lambda>rq w. (Inr (send_static_file ''index.html''), w))
        (session_request ''/form'' ''tok'') logged_in
       = (Inr (send_static_file ''index.html''), logged_in)"
    using require_session_gate [of logged_in "session_request ''/form'' ''tok''"
        "\<lambda>rq w. (Inr (send_static_file ''index.html''), w)"] a b
    by (simp add: session_request_def)
  have d: "require_session (\<lambda>rq w. (Inr (send_static_file ''index.html''), w))
        (session_request ''/form'' ''tok'') (advance 1800000 logged_in)
       = (Inr (redirect ''/login''), advance 1800000 logged_in)"
    using require_session_gate [of "advance 1800000 logged_in" "session_request ''/form'' ''tok''"
        "\<lambda>rq w. (Inr (send_static_file ''index.html''), w)"]
    by (simp add: session_request_def logged_in_eq session_live_def store_defs advance_def)
  have e: "require_session (\<lambda>rq w. (Inr (send_static_file ''index.html''), w))
        (anonymous_request ''/api/append-to-sheet'') (logged_in\<lparr>reachable := False\<rparr>)
       = (Inr (jsonify 401 (JObj [(''error'', JStr ''unauthorized'')])),
          logged_in\<lparr>reachable := False\<rparr>)"
    using require_session_gate [of "logged_in\<lparr>reachable := False\<rparr>"
        "anonymous_request ''/api/append-to-sheet''"
        "\<lambda>rq w. (Inr (send_static_file ''index.html''), w)"]
    by (simp add: anonymous_request_def session_live_def truthy_def)
  from a b c d e show ?thesis by (intro conjI)
qed

section \<open>The root decider\<close>

text \<open>
  Claim C8, as amended. \<open>GET /\<close> answers with the login page when the request has no
  \<open>auth_session\<close> cookie or the cookie's value is empty, and with the loading page
  whenever the cookie has a non-empty value. The answer is the same for every state of the
  store (reachable or not, whether or not it holds the session), and the store is left as
  it is: validity is not checked here. The two pages differ.
\<close>

theorem root_decider_by_cookie:
  "root_decider rq w =
     (if truthy (cookies rq ''auth_session'') then (Inr loading_page, w) else (Inr login_page, w))
   \<and> login_page \<noteq> loading_page"
  by (simp add: root_decider_def Let_def login_page_def loading_page_def send_static_file_def)

text \<open>
  Claim C8 as stated fails for a cookie that is present with an empty value
  (\<open>Cookie: auth_session=\<close>): the cookie is present, and the login page is served, not the
  loading page.
\<close>

theorem root_decider_empty_cookie:
  "cookies \<lparr>path = ''/'', remote_addr = Some ''10.0.0.1'',
            cookies = [''auth_session'' \<mapsto> ''''], form = Map.empty\<rparr> ''auth_session'' = Some ''''
   \<and> fst (root_decider
        \<lparr>path = ''/'', remote_addr = Some ''10.0.0.1'',
         cookies = [''auth_session'' \<mapsto> ''''], form = Map.empty\<rparr>
        \<lparr>reachable = True, now = 0, kv = Map.empty\<rparr>) = Inr login_page
   \<and> fst (root_decider
        \<lparr>path = ''/'', remote_addr = Some ''10.0.0.1'',
         cookies = [''auth_session'' \<mapsto> ''''], form = Map.empty\<rparr>
        \<lparr>reachable = True, now = 0, kv = Map.empty\<rparr>) \<noteq> Inr loading_page"
  by (simp add: root_decider_def truthy_def login_page_def loading_page_def send_static_file_def)

section \<open>The session check\<close>

text \<open>
  Claim C9. In every reachable state in which the store answers: \<open>GET /auth/check\<close>
  returns 401 with the body \<open>{"ok": false}\<close> when the cookie does not name a valid
  session, which includes the absent and the empty cookie, for which \<open>session_valid\<close>
  is false in every state of the store, reachable or not; and when the cookie names a
  valid session it returns 200 with the body \<open>{"ok": true, "ttl": ttl}\<close>, where
  \<open>ttl\<close> is the time the session key has left, rounded to seconds as the store reports
  it, between 0 and the configured \<open>SESSION_TTL_SECONDS\<close>. The store is not changed.
\<close>

theorem auth_check_ok_ttl:
  assumes "reach cfg w" and "reachable w"
  shows "(\<forall>w'. \<not> truthy (cookies rq ''auth_session'') \<longrightarrow>
            session_valid (cookies rq ''auth_session'') w' = Inr False)
    \<and> (\<not> session_live w (cookies rq ''auth_session'') \<longrightarrow>
          auth_check rq w = (Inr (jsonify 401 (JObj [(''ok'', JBool False)])), w))
    \<and> (session_live w (cookies rq ''auth_session'') \<longrightarrow>
          (\<exists>sid x ttl.
             cookies rq ''auth_session'' = Some sid
             \<and> lookup w (SESS_PREFIX @ sid) = Some (1, Some x)
             \<and> ttl = int ((x - now w + 500) div 1000)
             \<and> 0 \<le> ttl \<and> ttl \<le> SESSION_TTL_SECONDS cfg
             \<and> auth_check rq w =
                 (Inr (jsonify 200 (JObj [(''ok'', JBool True), (''ttl'', JInt ttl)])), w)))"
proof (intro conjI allI impI)
  fix w' assume "\<not> truthy (cookies rq ''auth_session'')"
  then show "session_valid (cookies rq ''auth_session'') w' = Inr False"
    by (rule session_valid_falsy)
next
  assume "\<not> session_live w (cookies rq ''auth_session'')"
  with assms(2) show "auth_check rq w = (Inr (jsonify 401 (JObj [(''ok'', JBool False)])), w)"
    by (simp add: auth_check_def session_valid_reachable)
next
  assume lv: "session_live w (cookies rq ''auth_session'')"
  then obtain sid where sid: "cookies rq ''auth_session'' = Some sid" "sid \<noteq> []"
    and ex: "lookup w (SESS_PREFIX @ sid) \<noteq> None"
    by (auto simp: session_live_def split: option.splits)
  from ex obtain v e where ve: "lookup w (SESS_PREFIX @ sid) = Some (v, e)" by auto
  then have "kv w (SESS_PREFIX @ sid) = Some (v, e)"
    unfolding lookup_def by (rule live_SomeD)
  from sess_invD [OF reach_sess_inv [OF assms(1)] this] obtain x where
    x: "v = 1" "e = Some x" "x \<le> now w + nat (SESSION_TTL_SECONDS cfg) * 1000"
    by blast
  from ve x have lk: "live (now w) (kv w) (SESS_PREFIX @ sid) = Some (1, Some x)"
    by (simp add: lookup_def)
  from lk have "now w < x" by (auto simp: live_def split: option.splits if_splits)
  with x(3) have nn: "0 \<le> SESSION_TTL_SECONDS cfg"
    by (cases "0 \<le> SESSION_TTL_SECONDS cfg") simp_all
  define ttl where "ttl = int ((x - now w + 500) div 1000)"
  from TTL_bounds [OF lk x(3)] nn
  have t: "TTL (now w) (SESS_PREFIX @ sid) (kv w) = ttl" "0 \<le> ttl"
    "ttl \<le> SESSION_TTL_SECONDS cfg"
    by (simp_all add: ttl_def)
  have ac: "auth_check rq w =
      (Inr (jsonify 200 (JObj [(''ok'', JBool True), (''ttl'', JInt ttl)])), w)"
    using assms(2) lv sid t(1)
    by (simp add: auth_check_def session_valid_reachable session_ttl_def rds_ttl_def)
  from ve x have lk2: "lookup w (SESS_PREFIX @ sid) = Some (1, Some x)" by simp
  show "\<exists>sid x ttl.
             cookies rq ''auth_session'' = Some sid
             \<and> lookup w (SESS_PREFIX @ sid) = Some (1, Some x)
             \<and> ttl = int ((x - now w + 500) div 1000)
             \<and> 0 \<le> ttl \<and> ttl \<le> SESSION_TTL_SECONDS cfg
             \<and> auth_check rq w =
                 (Inr (jsonify 200 (JObj [(''ok'', JBool True), (''ttl'', JInt ttl)])), w)"
    using sid(1) lk2 ttl_def t(2,3) ac by blast
qed

theorem auth_check_ok_ttl_witness:
  "reach demo_config (advance 700 logged_in)
   \<and> reachable (advance 700 logged_in)
   \<and> session_live (advance 700 logged_in) (Some ''tok'')
   \<and> SESSION_TTL_SECONDS demo_config = 1800
   \<and> auth_check (session_request ''/auth/check'' ''tok'') (advance 700 logged_in) =
       (Inr (jsonify 200 (JObj [(''ok'', JBool True), (''ttl'', JInt 1799)])),
        advance 700 logged_in)
   \<and> auth_check (anonymous_request ''/auth/check'') (advance 700 logged_in) =
       (Inr (jsonify 401 (JObj [(''ok'', JBool False)])), advance 700 logged_in)"
proof -
  let ?w = "advance 700 logged_in"
  have r: "reach demo_config ?w" by (intro reach.elapse reach_logged_in)
  have u: "reachable ?w" by (simp add: logged_in_eq advance_def)
  have l: "session_live ?w (Some ''tok'')"
    by (simp add: logged_in_eq session_live_def store_defs advance_def)
  have t: "SESSION_TTL_SECONDS demo_config = 1800" by (simp add: sample_defs)
  have lk: "lookup ?w (SESS_PREFIX @ ''tok'') = Some (1, Some 1800000)"
    by (simp add: logged_in_eq store_defs advance_def)
  have n: "now ?w = 700" by (simp add: logged_in_eq advance_def)
  from auth_check_ok_ttl [OF r u, of "session_request ''/auth/check'' ''tok''"] l
  obtain sid x ttl where
    s: "cookies (session_request ''/auth/check'' ''tok'') ''auth_session'' = Some sid"
    and x: "lookup ?w (SESS_PREFIX @ sid) = Some (1, Some x)"
    and v: "ttl = int ((x - now ?w + 500) div 1000)"
    and a: "auth_check (session_request ''/auth/check'' ''tok'') ?w =
       (Inr (jsonify 200 (JObj [(''ok'', JBool True), (''ttl'', JInt ttl)])), ?w)"
    by (auto simp: session_request_def)
  from s have "sid = ''tok''" by (simp add: session_request_def)
  with x lk have "x = 1800000" by simp
  with v n have "ttl = 1799" by simp
  with a have ok: "auth_check (session_request ''/auth/check'' ''tok'') ?w =
       (Inr (jsonify 200 (JObj [(''ok'', JBool True), (''ttl'', JInt 1799)])), ?w)" by simp
  have no: "auth_check (anonymous_request ''/auth/check'') ?w =
       (Inr (jsonify 401 (JObj [(''ok'', JBool False)])), ?w)"
    using auth_check_ok_ttl [OF r u, of "anonymous_request ''/auth/check''"]
    by (simp add: anonymous_request_def session_live_def)
  from r u l t ok no show ?thesis by (intro conjI)
qed

section \<open>The rate limiter\<close>

lemma live_upd_same:
  "live t s k = Some (v, e) \<Longrightarrow> live t (s(k \<mapsto> (v', e))) k = Some (v', e)"
  by (auto simp: live_def split: option.splits if_splits)

lemma live_upd_fresh: "live t (s(k \<mapsto> (v, None))) k = Some (v, None)"
  by (simp add: live_def)

lemma pipeline_incr_expire_counter:
  assumes "reachable w" and "counter w ip < INT64_MAX"
  shows "pipeline_incr_expire (rl_key ip) 60 w =
           (Inr (counter w ip + 1, 1),
            w\<lparr>kv := (kv w)(rl_key ip \<mapsto> (counter w ip + 1, Some (now w + 60000)))\<rparr>)"
proof (cases "lookup w (rl_key ip)")
  case None
  then have "live (now w) (kv w) (rl_key ip) = None" by (simp add: lookup_def)
  with assms(1) None show ?thesis
    by (simp add: pipeline_incr_expire_def INCR_def EXPIRE_def counter_def live_upd_fresh)
next
  case (Some p)
  obtain v e where p: "p = (v, e)" by (cases p)
  with Some have l: "live (now w) (kv w) (rl_key ip) = Some (v, e)" by (simp add: lookup_def)
  from Some p have c: "counter w ip = v" by (simp add: counter_def)
  with assms(2) have "\<not> INT64_MAX \<le> v" by simp
  with assms(1) l c show ?thesis
    by (simp add: pipeline_incr_expire_def INCR_def EXPIRE_def live_upd_same)
qed

lemma rate_limit_login_step:
  assumes "reachable w" and "counter w ip < INT64_MAX"
  shows "rate_limit_login cfg ip w =
           (Inr (counter w ip + 1 \<le> API_RATE_LIMIT cfg),
            w\<lparr>kv := (kv w)(rl_key ip \<mapsto> (counter w ip + 1, Some (now w + 60000)))\<rparr>)"
  by (simp add: rate_limit_login_def pipeline_incr_expire_counter [OF assms])

text \<open>
  Claim C2, as amended. When the store answers (and the counter has not reached the end
  of the store's 64-bit range), \<open>rate_limit_login\<close> is one step of the store: it
  replaces the count of the client's key by the count plus one (1 when the key was absent
  or expired), sets the expiry of the key to 60 seconds from now on every call, whether or
  not this increment created the key, and returns true exactly when the new count is at
  most \<open>API_RATE_LIMIT\<close>. Nothing else in the store changes.
\<close>

theorem rate_limit_login_counts:
  assumes "reachable w" and "counter w ip < INT64_MAX"
  shows "rate_limit_login cfg ip w =
           (Inr (counter w ip + 1 \<le> API_RATE_LIMIT cfg),
            w\<lparr>kv := (kv w)(rl_key ip \<mapsto> (counter w ip + 1, Some (now w + 60000)))\<rparr>)"
  by (rule rate_limit_login_step [OF assms])

theorem rate_limit_login_counts_witness:
  "reachable (advance 30000 logged_in)
   \<and> counter (advance 30000 logged_in) ''10.0.0.1'' = 1
   \<and> rate_limit_login demo_config ''10.0.0.1'' (advance 30000 logged_in) =
       (Inr True,
        (advance 30000 logged_in)
          \<lparr>kv := (kv (advance 30000 logged_in))(''rl:login:10.0.0.1'' \<mapsto> (2, Some 90000))\<rparr>)"
proof -
  let ?w = "advance 30000 logged_in"
  have a: "reachable ?w" by (simp add: logged_in_eq advance_def)
  have b: "counter ?w ''10.0.0.1'' = 1"
    by (simp add: logged_in_eq advance_def counter_def store_defs)
  then have c: "counter ?w ''10.0.0.1'' < INT64_MAX" by (simp add: INT64_MAX_def)
  have n: "now ?w = 30000" by (simp add: logged_in_eq advance_def)
  have d: "rate_limit_login demo_config ''10.0.0.1'' ?w =
       (Inr True, ?w\<lparr>kv := (kv ?w)(''rl:login:10.0.0.1'' \<mapsto> (2, Some 90000))\<rparr>)"
    using rate_limit_login_counts [OF a c, of demo_config] b n
    by (simp add: sample_defs rl_key_def RL_PREFIX_def)
  from a b d show ?thesis by (intro conjI)
qed

text \<open>
  Claim C2 as stated fails where it says that the expiry is set exactly on the increment
  that creates the key: 30 seconds into a window whose key holds 1 and expires at second
  60, the next call finds the key (it does not create it) and moves the expiry to second 90.
\<close>

theorem rate_limit_login_refreshes_expiry:
  "lookup \<lparr>reachable = True, now = 30000,
            kv = [''rl:login:10.0.0.1'' \<mapsto> (1, Some 60000)]\<rparr> ''rl:login:10.0.0.1''
     = Some (1, Some 60000)
   \<and> kv (snd (rate_limit_login default_config ''10.0.0.1''
        \<lparr>reachable = True, now = 30000,
         kv = [''rl:login:10.0.0.1'' \<mapsto> (1, Some 60000)]\<rparr>)) ''rl:login:10.0.0.1''
     = Some (2, Some 90000)"
  by (simp add: rate_limit_login_def store_defs default_config_def)

section \<open>Logout\<close>

lemma DEL_lookup:
  "DEL (now w) k (kv w) = (if lookup w k = None then (0, kv w) else (1, (kv w)(k := None)))"
  by (simp add: DEL_def lookup_def split: option.splits)

lemma session_delete_reachable:
  assumes "reachable w"
  shows "session_delete sid w =
           (Inr (), case sid of
                      None \<Rightarrow> w
                    | Some s \<Rightarrow>
                        if session_live w (Some s) then w\<lparr>kv := (kv w)(SESS_PREFIX @ s := None)\<rparr>
                        else w)"
  using assms
  by (auto simp: session_delete_def rds_delete_def DEL_lookup session_live_def
      split: option.splits)

lemma logout_reachable:
  assumes "reachable w"
  shows "logout rq w =
           (Inr (clear_session_cookie (redirect ''/'')),
            case cookies rq ''auth_session'' of
              None \<Rightarrow> w
            | Some s \<Rightarrow>
                if session_live w (Some s) then w\<lparr>kv := (kv w)(SESS_PREFIX @ s := None)\<rparr>
                else w)"
proof (cases "truthy (cookies rq ''auth_session'')")
  case True
  then show ?thesis
    by (simp add: logout_def session_delete_reachable [OF assms])
next
  case False
  then have "\<not> session_live w (cookies rq ''auth_session'')"
    using session_live_truthy by blast
  with False show ?thesis
    by (auto simp: logout_def split: option.splits)
qed

lemma not_live_after_delete:
  "\<not> session_live (advance d (w\<lparr>kv := (kv w)(SESS_PREFIX @ s := None)\<rparr>)) (Some s)"
  by (simp add: session_live_def lookup_def live_def advance_def)

lemma not_live_advance:
  "\<not> session_live w sid \<Longrightarrow> \<not> session_live (advance d w) sid"
  by (auto simp: session_live_def lookup_def live_def advance_def
      split: option.splits if_splits)

lemma logout_not_live:
  assumes "reachable w"
  shows "\<not> session_live (advance d (snd (logout rq w))) (cookies rq ''auth_session'')"
proof (cases "cookies rq ''auth_session''")
  case None
  then show ?thesis by (simp add: session_live_def)
next
  case (Some s)
  show ?thesis
  proof (cases "session_live w (Some s)")
    case True
    with Some show ?thesis
      by (simp add: logout_reachable [OF assms] not_live_after_delete)
  next
    case False
    with Some show ?thesis
      by (simp add: logout_reachable [OF assms] not_live_advance)
  qed
qed

lemma logout_keeps_reachable: "reachable w \<Longrightarrow> reachable (advance d (snd (logout rq w)))"
  by (simp add: logout_reachable advance_def split: option.splits)

lemma logout_noop:
  assumes "reachable w" and "\<not> session_live w (cookies rq ''auth_session'')"
  shows "logout rq w = (Inr (clear_session_cookie (redirect ''/'')), w)"
  using assms(2) by (auto simp: logout_reachable [OF assms(1)] split: option.splits)

text \<open>
  Claim C6. When the store answers, \<open>POST /auth/logout\<close> never raises and always
  answers with the redirect to \<open>/\<close> that carries the clearing \<open>auth_session\<close> cookie
  (empty value, \<open>max_age\<close> 0), whether or not a session existed. It removes the key of
  the session the cookie names and nothing else, and leaves the store as it is when the
  cookie is absent, empty or stale. Afterwards the cookie names no session, so a second
  call, at once or later, with no cookie or with the same, now stale, cookie gives the
  same answer and leaves the store as it is. \<open>session_delete\<close> of an identifier that
  names no session leaves the store as it is.
\<close>

theorem logout_idempotent:
  assumes "reachable w"
  shows "logout rq w =
           (Inr (clear_session_cookie (redirect ''/'')),
            case cookies rq ''auth_session'' of
              None \<Rightarrow> w
            | Some s \<Rightarrow>
                if session_live w (Some s) then w\<lparr>kv := (kv w)(SESS_PREFIX @ s := None)\<rparr>
                else w)
    \<and> clear_session_cookie (redirect ''/'') =
         \<lparr>status = 302, body = NoBody, headers = [(''Location'', ''/'')],
          set_cookies =
            [\<lparr>cookie_name = ''auth_session'', cookie_val = [], max_age = Some 0,
              expires = Some 0, httponly = False, samesite = None, secure = False,
              cookie_path = ''/''\<rparr>]\<rparr>
    \<and> \<not> session_live (snd (logout rq w)) (cookies rq ''auth_session'')
    \<and> (\<forall>rq2 d.
          cookies rq2 ''auth_session'' = None
          \<or> cookies rq2 ''auth_session'' = cookies rq ''auth_session'' \<longrightarrow>
          logout rq2 (advance d (snd (logout rq w))) =
            (Inr (clear_session_cookie (redirect ''/'')), advance d (snd (logout rq w))))
    \<and> (\<forall>sid. \<not> session_live w sid \<longrightarrow> session_delete sid w = (Inr (), w))"
proof (intro conjI allI impI)
  show "logout rq w =
           (Inr (clear_session_cookie (redirect ''/'')),
            case cookies rq ''auth_session'' of
              None \<Rightarrow> w
            | Some s \<Rightarrow>
                if session_live w (Some s) then w\<lparr>kv := (kv w)(SESS_PREFIX @ s := None)\<rparr>
                else w)"
    by (rule logout_reachable [OF assms])
next
  show "clear_session_cookie (redirect ''/'') =
         \<lparr>status = 302, body = NoBody, headers = [(''Location'', ''/'')],
          set_cookies =
            [\<lparr>cookie_name = ''auth_session'', cookie_val = [], max_age = Some 0,
              expires = Some 0, httponly = False, samesite = None, secure = False,
              cookie_path = ''/''\<rparr>]\<rparr>"
    by (simp add: clear_session_cookie_def redirect_def)
next
  from logout_not_live [OF assms, of 0 rq]
  show "\<not> session_live (snd (logout rq w)) (cookies rq ''auth_session'')"
    by (simp add: advance_def)
next
  fix rq2 :: request and d :: nat
  assume c: "cookies rq2 ''auth_session'' = None
          \<or> cookies rq2 ''auth_session'' = cookies rq ''auth_session''"
  have "\<not> session_live (advance d (snd (logout rq w))) (cookies rq2 ''auth_session'')"
    using c logout_not_live [OF assms, of d rq] by (auto simp: session_live_def)
  with logout_keeps_reachable [OF assms, of d rq]
  show "logout rq2 (advance d (snd (logout rq w))) =
            (Inr (clear_session_cookie (redirect ''/'')), advance d (snd (logout rq w)))"
    by (rule logout_noop)
next
  fix sid
  assume "\<not> session_live w sid"
  then show "session_delete sid w = (Inr (), w)"
    by (auto simp: session_delete_reachable [OF assms] split: option.splits)
qed

theorem logout_idempotent_witness:
  "reachable logged_in
   \<and> session_live logged_in (Some ''tok'')
   \<and> logout (session_request ''/auth/logout'' ''tok'') logged_in =
       (Inr (clear_session_cookie (redirect ''/'')),
        logged_in\<lparr>kv := (kv logged_in)(''sess:tok'' := None)\<rparr>)
   \<and> \<not> session_live (snd (logout (session_request ''/auth/logout'' ''tok'') logged_in))
         (Some ''tok'')
   \<and> logout (session_request ''/auth/logout'' ''tok'')
        (advance 5000 (snd (logout (session_request ''/auth/logout'' ''tok'') logged_in))) =
       (Inr (clear_session_cookie (redirect ''/'')),
        advance 5000 (snd (logout (session_request ''/auth/logout'' ''tok'') logged_in)))
   \<and> logout (anonymous_request ''/auth/logout'')
        (advance 5000 (snd (logout (session_request ''/auth/logout'' ''tok'') logged_in))) =
       (Inr (clear_session_cookie (redirect ''/'')),
        advance 5000 (snd (logout (session_request ''/auth/logout'' ''tok'') logged_in)))
   \<and> session_delete (Some ''gone'') logged_in = (Inr (), logged_in)"
proof -
  let ?rq = "session_request ''/auth/logout'' ''tok''"
  have a: "reachable logged_in" by (simp add: logged_in_eq)
  have b: "session_live logged_in (Some ''tok'')"
    by (simp add: logged_in_eq session_live_def store_defs)
  have g: "\<not> session_live logged_in (Some ''gone'')"
    by (simp add: logged_in_eq session_live_def store_defs)
  have ck: "cookies ?rq ''auth_session'' = Some ''tok''" by (simp add: session_request_def)
  have an: "cookies (anonymous_request ''/auth/logout'') ''auth_session'' = None"
    by (simp add: anonymous_request_def)
  note t = logout_idempotent [OF a, of ?rq]
  note t1 = t [THEN conjunct1]
  note t3 = t [THEN conjunct2, THEN conjunct2, THEN conjunct1]
  note t4 = t [THEN conjunct2, THEN conjunct2, THEN conjunct2, THEN conjunct1]
  note t5 = t [THEN conjunct2, THEN conjunct2, THEN conjunct2, THEN conjunct2]
  from t1 have c: "logout ?rq logged_in =
       (Inr (clear_session_cookie (redirect ''/'')),
        logged_in\<lparr>kv := (kv logged_in)(''sess:tok'' := None)\<rparr>)"
    using b ck by (simp add: SESS_PREFIX_def)
  from t3 ck have d: "\<not> session_live (snd (logout ?rq logged_in)) (Some ''tok'')" by simp
  from t4 have e: "logout ?rq (advance 5000 (snd (logout ?rq logged_in))) =
       (Inr (clear_session_cookie (redirect ''/'')), advance 5000 (snd (logout ?rq logged_in)))"
    by blast
  from t4 an have f: "logout (anonymous_request ''/auth/logout'')
        (advance 5000 (snd (logout ?rq logged_in))) =
       (Inr (clear_session_cookie (redirect ''/'')), advance 5000 (snd (logout ?rq logged_in)))"
    by blast
  from t5 g have h: "session_delete (Some ''gone'') logged_in = (Inr (), logged_in)" by blast
  from a b c d e f h show ?thesis by (intro conjI)
qed

section \<open>Store failures and the error handler\<close>

lemma on_error_generic:
  "(\<And>code d. e \<noteq> HTTPException code d) \<Longrightarrow>
   on_error e = jsonify 500 (JObj [(''error'', JStr ''internal server error'')])"
  by (cases e) (auto simp: on_error_def)

lemma on_error_unreachable:
  "on_error unreachable_error = jsonify 500 (JObj [(''error'', JStr ''internal server error'')])"
  by (simp add: on_error_def unreachable_error_def)

lemma require_session_unreachable:
  "\<not> reachable w \<Longrightarrow> truthy (cookies rq ''auth_session'') \<Longrightarrow>
   require_session fn rq w = (Inl unreachable_error, w)"
  by (simp add: require_session_def session_valid_unreachable)

lemma auth_check_unreachable:
  "\<not> reachable w \<Longrightarrow> truthy (cookies rq ''auth_session'') \<Longrightarrow>
   auth_check rq w = (Inl unreachable_error, w)"
  by (simp add: auth_check_def session_valid_unreachable)

lemma logout_unreachable:
  "\<not> reachable w \<Longrightarrow> truthy (cookies rq ''auth_session'') \<Longrightarrow>
   logout rq w = (Inl unreachable_error, w)"
  by (auto simp: logout_def session_delete_def rds_delete_def truthy_def split: option.splits)

lemma login_unreachable:
  "\<not> reachable w \<Longrightarrow> login cfg tok rq w = (Inl unreachable_error, w)"
  by (simp add: login_def rate_limit_login_def pipeline_incr_expire_def)

text \<open>
  Claim C7. Every exception that is not an HTTP exception is turned by \<open>on_error\<close> into
  the same response, status 500 with the JSON body \<open>{"error": "internal server error"}\<close>,
  whatever the exception and its message are; so whenever a view raises one, this generic
  500 is what the client receives. While the store is unreachable, a request that presents
  a session identifier to a protected route, to \<open>/auth/check\<close> or to \<open>/auth/logout\<close>,
  and every login request, is answered with this 500 and not with the 401 or the redirect
  of an unauthenticated request. (A request without a session identifier is answered
  before the store is asked: it is unauthenticated whatever the store holds.)
\<close>

theorem store_failure_is_500:
  "(\<forall>e. (\<forall>code d. e \<noteq> HTTPException code d) \<longrightarrow>
        on_error e = jsonify 500 (JObj [(''error'', JStr ''internal server error'')]))
   \<and> (\<forall>(v :: view) rq w e w'.
        v rq w = (Inl e, w') \<and> (\<forall>code d. e \<noteq> HTTPException code d) \<longrightarrow>
        serve v rq w = (jsonify 500 (JObj [(''error'', JStr ''internal server error'')]), w'))
   \<and> (\<forall>fn rq w.
        \<not> reachable w \<and> truthy (cookies rq ''auth_session'') \<longrightarrow>
        serve (require_session fn) rq w =
          (jsonify 500 (JObj [(''error'', JStr ''internal server error'')]), w)
        \<and> serve auth_check rq w =
          (jsonify 500 (JObj [(''error'', JStr ''internal server error'')]), w)
        \<and> serve logout rq w =
          (jsonify 500 (JObj [(''error'', JStr ''internal server error'')]), w))
   \<and> (\<forall>cfg tok rq w.
        \<not> reachable w \<longrightarrow>
        serve (login cfg tok) rq w =
          (jsonify 500 (JObj [(''error'', JStr ''internal server error'')]), w))"
proof (intro conjI allI impI)
  fix e :: exn
  assume "\<forall>code d. e \<noteq> HTTPException code d"
  then show "on_error e = jsonify 500 (JObj [(''error'', JStr ''internal server error'')])"
    by (simp add: on_error_generic)
next
  fix v :: view and rq :: request and w :: world and e w'
  assume "v rq w = (Inl e, w') \<and> (\<forall>code d. e \<noteq> HTTPException code d)"
  then show "serve v rq w =
      (jsonify 500 (JObj [(''error'', JStr ''internal server error'')]), w')"
    by (simp add: serve_def on_error_generic)
next
  fix fn :: view and rq :: request and w :: world
  assume "\<not> reachable w \<and> truthy (cookies rq ''auth_session'')"
  then show "serve (require_session fn) rq w =
      (jsonify 500 (JObj [(''error'', JStr ''internal server error'')]), w)"
    by (simp add: serve_def require_session_unreachable on_error_unreachable)
next
  fix rq :: request and w :: world
  assume "\<not> reachable w \<and> truthy (cookies rq ''auth_session'')"
  then show "serve auth_check rq w =
      (jsonify 500 (JObj [(''error'', JStr ''internal server error'')]), w)"
    by (simp add: serve_def auth_check_unreachable on_error_unreachable)
next
  fix rq :: request and w :: world
  assume "\<not> reachable w \<and> truthy (cookies rq ''auth_session'')"
  then show "serve logout rq w =
      (jsonify 500 (JObj [(''error'', JStr ''internal server error'')]), w)"
    by (simp add: serve_def logout_unreachable on_error_unreachable)
next
  fix cfg tok and rq :: request and w :: world
  assume "\<not> reachable w"
  then show "serve (login cfg tok) rq w =
      (jsonify 500 (JObj [(''error'', JStr ''internal server error'')]), w)"
    by (simp add: serve_def login_unreachable on_error_unreachable)
qed

theorem store_failure_is_500_witness:
  "\<not> reachable (logged_in\<lparr>reachable := False\<rparr>)
   \<and> truthy (cookies (session_request ''/form'' ''tok'') ''auth_session'')
   \<and> serve form_index (session_request ''/form'' ''tok'') (logged_in\<lparr>reachable := False\<rparr>) =
       (jsonify 500 (JObj [(''error'', JStr ''internal server error'')]),
        logged_in\<lparr>reachable := False\<rparr>)
   \<and> serve auth_check (session_request ''/auth/check'' ''tok'')
        (logged_in\<lparr>reachable := False\<rparr>) =
       (jsonify 500 (JObj [(''error'', JStr ''internal server error'')]),
        logged_in\<lparr>reachable := False\<rparr>)
   \<and> serve (login demo_config ''tok2'') (login_request ''s3cret'')
        (logged_in\<lparr>reachable := False\<rparr>) =
       (jsonify 500 (JObj [(''error'', JStr ''internal server error'')]),
        logged_in\<lparr>reachable := False\<rparr>)
   \<and> on_error (TypeError ''comparing strings with non-ASCII characters is not supported'') =
       jsonify 500 (JObj [(''error'', JStr ''internal server error'')])"
proof -
  let ?w = "logged_in\<lparr>reachable := False\<rparr>"
  let ?rq = "session_request ''/form'' ''tok''"
  have a: "\<not> reachable ?w" by simp
  have b: "truthy (cookies ?rq ''auth_session'')"
    by (simp add: session_request_def truthy_def)
  have b': "truthy (cookies (session_request ''/auth/check'' ''tok'') ''auth_session'')"
    by (simp add: session_request_def truthy_def)
  note t = store_failure_is_500
  note t1 = t [THEN conjunct1]
  note t3 = t [THEN conjunct2, THEN conjunct2, THEN conjunct1]
  note t4 = t [THEN conjunct2, THEN conjunct2, THEN conjunct2]
  from t3 a b have c: "serve form_index ?rq ?w =
       (jsonify 500 (JObj [(''error'', JStr ''internal server error'')]), ?w)"
    unfolding form_index_def by blast
  from t3 a b' have d: "serve auth_check (session_request ''/auth/check'' ''tok'') ?w =
       (jsonify 500 (JObj [(''error'', JStr ''internal server error'')]), ?w)"
    by blast
  from t4 a have e: "serve (login demo_config ''tok2'') (login_request ''s3cret'') ?w =
       (jsonify 500 (JObj [(''error'', JStr ''internal server error'')]), ?w)"
    by blast
  from t1 have f: "on_error (TypeError ''comparing strings with non-ASCII characters is not supported'') =
       jsonify 500 (JObj [(''error'', JStr ''internal server error'')])"
    by blast
  from a b c d e f show ?thesis by (intro conjI)
qed

section \<open>Login\<close>

lemma consttime_eq_ascii:
  "consttime_eq a b =
     (if isascii a \<and> isascii (or_else b []) then Inr (a = or_else b [])
      else Inl (TypeError ''comparing strings with non-ASCII characters is not supported''))"
  by (simp add: consttime_eq_def compare_digest_def or_else_def)

lemma session_set_reachable:
  "reachable w \<Longrightarrow> 0 < ttl \<Longrightarrow>
   session_set tok ttl w =
     (Inr (), w\<lparr>kv := (kv w)(SESS_PREFIX @ tok \<mapsto> (1, Some (now w + nat ttl * 1000)))\<rparr>)"
  by (simp add: session_set_def rds_setex_def SETEX_def)

lemma login_allowed:
  assumes "rate_limit_login cfg (client_ip rq) w = (Inr True, w1)"
  shows "login cfg tok rq w =
     (case consttime_eq (submitted_key rq) (UNIVERSAL_KEY cfg) of
        Inl e \<Rightarrow> (Inl e, w1)
      | Inr eq \<Rightarrow>
          if \<not> eq then (Inr wrong_key, advance 400 w1)
          else (case session_set tok (SESSION_TTL_SECONDS cfg) w1 of
                  (Inl e, w2) \<Rightarrow> (Inl e, w2)
                | (Inr u, w2) \<Rightarrow> (Inr (set_session_cookie cfg (redirect ''/'') tok), w2)))"
  using assms by (simp add: login_def client_ip_def submitted_key_def)

lemma login_refused:
  assumes "rate_limit_login cfg (client_ip rq) w = (Inr False, w1)"
  shows "login cfg tok rq w = (Inr too_many, w1)"
  using assms by (simp add: login_def client_ip_def)

lemma login_wrong_key:
  assumes allowed: "rate_limit_login cfg (client_ip rq) w = (Inr True, w1)"
    and wrong: "submitted_key rq \<noteq> or_else (UNIVERSAL_KEY cfg) []"
    and ascii: "isascii (submitted_key rq)" "isascii (or_else (UNIVERSAL_KEY cfg) [])"
  shows "login cfg tok rq w = (Inr wrong_key, advance 400 w1)"
  using wrong ascii by (simp add: login_allowed [OF allowed] consttime_eq_ascii)

lemma login_non_ascii:
  assumes allowed: "rate_limit_login cfg (client_ip rq) w = (Inr True, w1)"
    and "\<not> isascii (submitted_key rq)"
  shows "login cfg tok rq w =
     (Inl (TypeError ''comparing strings with non-ASCII characters is not supported''), w1)"
  using assms(2) by (simp add: login_allowed [OF allowed] consttime_eq_ascii)

text \<open>
  Claim C4. A login request that the rate limiter lets through and that submits the
  configured key (an ASCII string, as \<open>hmac.compare_digest\<close> requires of \<open>str\<close>
  arguments), with a positive configured session lifetime, is answered with the 302
  redirect to \<open>/\<close> carrying exactly one \<open>Set-Cookie\<close>: \<open>auth_session\<close> with the new
  token, \<open>max_age\<close> equal to \<open>SESSION_TTL_SECONDS\<close>, httpOnly, SameSite Lax, path
  \<open>/\<close>, and the secure flag set exactly when \<open>HTTPS_COOKIES\<close> is 1. The store after
  the request is the store the rate limiter left with exactly one session key written: the
  key of the token, holding 1 and expiring \<open>SESSION_TTL_SECONDS\<close> from now; every
  other session key is as before.
\<close>

theorem login_success:
  assumes allowed: "fst (rate_limit_login cfg (client_ip rq) w) = Inr True"
    and correct: "submitted_key rq = or_else (UNIVERSAL_KEY cfg) []"
    and ascii: "isascii (submitted_key rq)"
    and ttl: "0 < SESSION_TTL_SECONDS cfg"
  shows "login cfg tok rq w =
      (Inr \<lparr>status = 302, body = NoBody, headers = [(''Location'', ''/'')],
            set_cookies =
              [\<lparr>cookie_name = ''auth_session'', cookie_val = tok,
                max_age = Some (SESSION_TTL_SECONDS cfg), expires = None,
                httponly = True, samesite = Some ''Lax'',
                secure = (HTTPS_COOKIES cfg = 1), cookie_path = ''/''\<rparr>]\<rparr>,
       (snd (rate_limit_login cfg (client_ip rq) w))
         \<lparr>kv := (kv (snd (rate_limit_login cfg (client_ip rq) w)))
                  (SESS_PREFIX @ tok \<mapsto>
                     (1, Some (now w + nat (SESSION_TTL_SECONDS cfg) * 1000)))\<rparr>)
    \<and> lookup (snd (login cfg tok rq w)) (SESS_PREFIX @ tok) =
        Some (1, Some (now w + nat (SESSION_TTL_SECONDS cfg) * 1000))
    \<and> (\<forall>sid. sid \<noteq> tok \<longrightarrow>
          kv (snd (login cfg tok rq w)) (SESS_PREFIX @ sid) = kv w (SESS_PREFIX @ sid))"
proof -
  define w1 where "w1 = snd (rate_limit_login cfg (client_ip rq) w)"
  from allowed have rl: "rate_limit_login cfg (client_ip rq) w = (Inr True, w1)"
    by (simp add: w1_def prod_eq_iff)
  have up: "reachable w"
  proof (rule ccontr)
    assume "\<not> reachable w"
    then have "fst (rate_limit_login cfg (client_ip rq) w) = Inl unreachable_error"
      by (simp add: rate_limit_login_def pipeline_incr_expire_def)
    with allowed show False by simp
  qed
  then have up1: "reachable w1"
    by (simp add: w1_def rate_limit_reachable)
  have n1: "now w1 = now w" by (simp add: w1_def rate_limit_now)
  have eq: "consttime_eq (submitted_key rq) (UNIVERSAL_KEY cfg) = Inr True"
    using correct ascii by (simp add: consttime_eq_ascii)
  have l: "login cfg tok rq w =
      (Inr (set_session_cookie cfg (redirect ''/'') tok),
       w1\<lparr>kv := (kv w1)(SESS_PREFIX @ tok \<mapsto>
                     (1, Some (now w + nat (SESSION_TTL_SECONDS cfg) * 1000)))\<rparr>)"
    by (simp add: login_allowed [OF rl] eq session_set_reachable [OF up1 ttl] n1)
  have c: "set_session_cookie cfg (redirect ''/'') tok =
      \<lparr>status = 302, body = NoBody, headers = [(''Location'', ''/'')],
            set_cookies =
              [\<lparr>cookie_name = ''auth_session'', cookie_val = tok,
                max_age = Some (SESSION_TTL_SECONDS cfg), expires = None,
                httponly = True, samesite = Some ''Lax'',
                secure = (HTTPS_COOKIES cfg = 1), cookie_path = ''/''\<rparr>]\<rparr>"
    by (simp add: set_session_cookie_def redirect_def HTTPS_COOKIES_on_def)
  have pos: "0 < nat (SESSION_TTL_SECONDS cfg) * 1000" using ttl by simp
  have lk: "lookup (snd (login cfg tok rq w)) (SESS_PREFIX @ tok) =
        Some (1, Some (now w + nat (SESSION_TTL_SECONDS cfg) * 1000))"
    using pos by (simp add: l lookup_def live_def n1)
  have others: "\<forall>sid. sid \<noteq> tok \<longrightarrow>
          kv (snd (login cfg tok rq w)) (SESS_PREFIX @ sid) = kv w (SESS_PREFIX @ sid)"
    by (simp add: l w1_def rate_limit_kv sess_key_not_rl)
  from l c lk others show ?thesis
    unfolding w1_def by simp
qed

theorem login_success_witness:
  "fst (rate_limit_login demo_config (client_ip (login_request ''s3cret'')) start_world) = Inr True
   \<and> submitted_key (login_request ''s3cret'') = or_else (UNIVERSAL_KEY demo_config) []
   \<and> isascii (submitted_key (login_request ''s3cret''))
   \<and> SESSION_TTL_SECONDS demo_config = 1800
   \<and> login demo_config ''tok'' (login_request ''s3cret'') start_world =
       (Inr \<lparr>status = 302, body = NoBody, headers = [(''Location'', ''/'')],
             set_cookies =
               [\<lparr>cookie_name = ''auth_session'', cookie_val = ''tok'',
                 max_age = Some 1800, expires = None,
                 httponly = True, samesite = Some ''Lax'',
                 secure = False, cookie_path = ''/''\<rparr>]\<rparr>,
        \<lparr>reachable = True, now = 0,
         kv = [''rl:login:10.0.0.1'' \<mapsto> (1, Some 60000),
               ''sess:tok'' \<mapsto> (1, Some 1800000)]\<rparr>)"
proof -
  let ?rq = "login_request ''s3cret''"
  have a: "fst (rate_limit_login demo_config (client_ip ?rq) start_world) = Inr True"
    by (simp add: rate_limit_login_def client_ip_def store_defs app_defs sample_defs)
  have b: "submitted_key ?rq = or_else (UNIVERSAL_KEY demo_config) []"
    by (simp add: submitted_key_def or_else_def sample_defs)
  have c: "isascii (submitted_key ?rq)"
    by (simp add: submitted_key_def isascii_def sample_defs)
  have d: "0 < SESSION_TTL_SECONDS demo_config" by (simp add: sample_defs)
  have t: "SESSION_TTL_SECONDS demo_config = 1800" by (simp add: sample_defs)
  have w1: "snd (rate_limit_login demo_config (client_ip ?rq) start_world) =
      \<lparr>reachable = True, now = 0, kv = [''rl:login:10.0.0.1'' \<mapsto> (1, Some 60000)]\<rparr>"
    by (simp add: rate_limit_login_def client_ip_def store_defs app_defs sample_defs)
  have s: "HTTPS_COOKIES demo_config = 0" "now start_world = 0"
    by (simp_all add: sample_defs)
  from login_success [OF a b c d, of "''tok''", THEN conjunct1]
  have e: "login demo_config ''tok'' ?rq start_world =
       (Inr \<lparr>status = 302, body = NoBody, headers = [(''Location'', ''/'')],
             set_cookies =
               [\<lparr>cookie_name = ''auth_session'', cookie_val = ''tok'',
                 max_age = Some 1800, expires = None,
                 httponly = True, samesite = Some ''Lax'',
                 secure = False, cookie_path = ''/''\<rparr>]\<rparr>,
        \<lparr>reachable = True, now = 0,
         kv = [''rl:login:10.0.0.1'' \<mapsto> (1, Some 60000),
               ''sess:tok'' \<mapsto> (1, Some 1800000)]\<rparr>)"
    by (simp add: w1 t s SESS_PREFIX_def)
  from a b c t e show ?thesis by (intro conjI)
qed

text \<open>
  Claim C5 does not hold of the code for a wrong key with a character outside ASCII. The
  key \<open>U+00E9\<close> (UTF-8 bytes C3 A9) differs from the configured key and the limiter
  lets the request through, yet \<open>hmac.compare_digest\<close> raises \<open>TypeError\<close> before the
  sleep is reached: the client receives the generic 500 instead of the 401, and the clock
  has not moved.
\<close>

theorem login_non_ascii_key_is_500:
  "submitted_key (login_request [CHR 0xC3, CHR 0xA9]) \<noteq> or_else (UNIVERSAL_KEY demo_config) []
   \<and> fst (rate_limit_login demo_config (client_ip (login_request [CHR 0xC3, CHR 0xA9]))
        start_world) = Inr True
   \<and> serve (login demo_config ''tok'') (login_request [CHR 0xC3, CHR 0xA9]) start_world =
       (\<lparr>status = 500, body = Json (JObj [(''error'', JStr ''internal server error'')]),
         headers = [], set_cookies = []\<rparr>,
        \<lparr>reachable = True, now = 0, kv = [''rl:login:10.0.0.1'' \<mapsto> (1, Some 60000)]\<rparr>)
   \<and> now (snd (serve (login demo_config ''tok'') (login_request [CHR 0xC3, CHR 0xA9])
        start_world)) = now start_world"
  by (simp add: serve_def login_def on_error_def rate_limit_login_def client_ip_def
      submitted_key_def store_defs app_defs sample_defs)

section \<open>Runs of login requests\<close>

text \<open>
  Each login request of an address inside the window adds one to its counter and pushes
  the expiry of the counter forward, so the counter stays alive as long as the requests
  arrive within 60 seconds of the first. The lemmas follow a run by induction on the list
  of requests, with the count and the state generalised.
\<close>

lemma in_window_counter:
  assumes "in_window ip c T w" and "now w < T + 60000"
  shows "counter w ip = c"
  using assms
  by (auto simp: in_window_def counter_def lookup_def live_def split: option.splits)

lemma serve_snd: "snd (serve v rq w) = snd (v rq w)"
  by (simp add: serve_def split: prod.splits sum.splits)

lemma session_set_reachable_eq: "reachable (snd (session_set tok ttl w)) = reachable w"
  by (auto simp: session_set_def rds_setex_def SETEX_def split: prod.splits sum.splits)

lemma session_set_rl_kv: "kv (snd (session_set tok ttl w)) (rl_key ip) = kv w (rl_key ip)"
  using session_set_kv [of tok ttl w "rl_key ip"] sess_key_not_rl [of tok ip]
  by auto

lemma login_reachable_eq: "reachable (snd (login cfg tok rq w)) = reachable w"
  using login_cases [of cfg tok rq w]
  by (auto simp: rate_limit_reachable session_set_reachable_eq advance_def)

lemma login_rl_kv:
  "kv (snd (login cfg tok rq w)) k = kv (snd (rate_limit_login cfg (client_ip rq) w)) k
   \<or> k = SESS_PREFIX @ tok"
  using login_cases [of cfg tok rq w]
    session_set_kv [of tok "SESSION_TTL_SECONDS cfg" "snd (rate_limit_login cfg (client_ip rq) w)" k]
  by (auto simp: advance_def)

lemma login_window_step:
  assumes w: "in_window ip c T w" and t: "now w < T + 60000" and c: "c < INT64_MAX"
    and ip: "client_ip rq = ip"
  shows "in_window ip (c + 1) T (advance d (snd (serve (login cfg tok) rq w)))"
proof -
  from w have up: "reachable w" and T: "T \<le> now w" by (simp_all add: in_window_def)
  have cnt: "counter w ip = c" by (rule in_window_counter [OF w t])
  with c have lt: "counter w ip < INT64_MAX" by simp
  let ?w' = "snd (login cfg tok rq w)"
  have rl: "kv (snd (rate_limit_login cfg ip w)) (rl_key ip) = Some (c + 1, Some (now w + 60000))"
    by (simp add: rate_limit_login_step [OF up lt] cnt)
  have "kv ?w' (rl_key ip) = kv (snd (rate_limit_login cfg ip w)) (rl_key ip)"
    using login_rl_kv [of cfg tok rq w "rl_key ip"] sess_key_not_rl [of tok ip] ip
    by auto
  with rl have k: "kv ?w' (rl_key ip) = Some (c + 1, Some (now w + 60000))" by simp
  have r: "reachable ?w'" using up by (simp add: login_reachable_eq)
  have n: "now w \<le> now ?w'" by (rule login_now)
  from k r n T show ?thesis
    by (simp add: in_window_def serve_snd advance_def)
qed

lemma login_run_Cons:
  "snd (login_run cfg ((tok, rq, d) # rest) w) =
     snd (login_run cfg rest (advance d (snd (serve (login cfg tok) rq w))))"
  "fst (login_run cfg ((tok, rq, d) # rest) w) =
     fst (serve (login cfg tok) rq w) #
     fst (login_run cfg rest (advance d (snd (serve (login cfg tok) rq w))))"
  by (simp_all split: prod.splits)

lemma login_run_now: "now w \<le> now (snd (login_run cfg pre w))"
proof (induction pre arbitrary: w)
  case Nil
  show ?case by simp
next
  case (Cons a pre)
  obtain tok rq d where a: "a = (tok, rq, d)" by (cases a)
  let ?w' = "advance d (snd (serve (login cfg tok) rq w))"
  have "now w \<le> now ?w'"
    using login_now [of w cfg tok rq] by (simp add: serve_snd advance_def)
  also have "\<dots> \<le> now (snd (login_run cfg pre ?w'))" by (rule Cons.IH)
  finally show ?case
    by (simp add: a login_run_Cons del: login_run.simps)
qed

lemma login_run_window:
  assumes "in_window ip c T w"
    and "\<forall>(tok, rq, d) \<in> set pre. client_ip rq = ip"
    and "c + int (length pre) \<le> INT64_MAX"
    and "now (snd (login_run cfg pre w)) < T + 60000"
  shows "in_window ip (c + int (length pre)) T (snd (login_run cfg pre w))"
  using assms
proof (induction pre arbitrary: c w)
  case Nil
  then show ?case by simp
next
  case (Cons a pre)
  obtain tok rq d where a: "a = (tok, rq, d)" by (cases a)
  let ?w' = "advance d (snd (serve (login cfg tok) rq w))"
  have fin: "now (snd (login_run cfg pre ?w')) < T + 60000"
    using Cons.prems(4) by (simp add: a login_run_Cons del: login_run.simps)
  have "now w \<le> now ?w'"
    using login_now [of w cfg tok rq] by (simp add: serve_snd advance_def)
  also have "\<dots> \<le> now (snd (login_run cfg pre ?w'))" by (rule login_run_now)
  finally have t: "now w < T + 60000" using fin by simp
  have c: "c < INT64_MAX" using Cons.prems(3) by simp
  have ip: "client_ip rq = ip" using Cons.prems(2) by (simp add: a)
  have w': "in_window ip (c + 1) T ?w'"
    by (rule login_window_step [OF Cons.prems(1) t c ip])
  have "in_window ip (c + 1 + int (length pre)) T (snd (login_run cfg pre ?w'))"
  proof (rule Cons.IH [OF w' _ _ fin])
    show "\<forall>(tok, rq, d) \<in> set pre. client_ip rq = ip" using Cons.prems(2) by simp
    show "c + 1 + int (length pre) \<le> INT64_MAX" using Cons.prems(3) by simp
  qed
  moreover have "c + 1 + int (length pre) = c + int (length (a # pre))" by simp
  ultimately show ?case
    by (simp add: a login_run_Cons del: login_run.simps)
qed

lemma login_run_length: "length (fst (login_run cfg pre w)) = length pre"
proof (induction pre arbitrary: w)
  case Nil
  show ?case by simp
next
  case (Cons a pre)
  obtain tok rq d where a: "a = (tok, rq, d)" by (cases a)
  show ?case by (simp add: a login_run_Cons Cons.IH del: login_run.simps)
qed

lemma login_run_responses:
  assumes "in_window ip c T w"
    and "\<forall>(tok, rq, d) \<in> set pre. client_ip rq = ip"
    and "c + int (length pre) \<le> INT64_MAX"
    and "now (snd (login_run cfg pre w)) < T + 60000"
    and step: "\<And>tok rq d w' k. (tok, rq, d) \<in> set pre \<Longrightarrow> reachable w' \<Longrightarrow>
        counter w' ip = k \<Longrightarrow> c \<le> k \<Longrightarrow> k < c + int (length pre) \<Longrightarrow>
        P (fst (serve (login cfg tok) rq w'))"
  shows "list_all P (fst (login_run cfg pre w))"
  using assms
proof (induction pre arbitrary: c w)
  case Nil
  then show ?case by simp
next
  case (Cons a pre)
  obtain tok rq d where a: "a = (tok, rq, d)" by (cases a)
  let ?w' = "advance d (snd (serve (login cfg tok) rq w))"
  have fin: "now (snd (login_run cfg pre ?w')) < T + 60000"
    using Cons.prems(4) by (simp add: a login_run_Cons del: login_run.simps)
  have "now w \<le> now ?w'"
    using login_now [of w cfg tok rq] by (simp add: serve_snd advance_def)
  also have "\<dots> \<le> now (snd (login_run cfg pre ?w'))" by (rule login_run_now)
  finally have t: "now w < T + 60000" using fin by simp
  have c: "c < INT64_MAX" using Cons.prems(3) by simp
  have ip: "client_ip rq = ip" using Cons.prems(2) by (simp add: a)
  have w': "in_window ip (c + 1) T ?w'"
    by (rule login_window_step [OF Cons.prems(1) t c ip])
  have up: "reachable w" using Cons.prems(1) by (simp add: in_window_def)
  have cnt: "counter w ip = c" by (rule in_window_counter [OF Cons.prems(1) t])
  have mem: "(tok, rq, d) \<in> set (a # pre)" by (simp add: a)
  have first: "P (fst (serve (login cfg tok) rq w))"
    by (rule Cons.prems(5) [OF mem up cnt]) simp_all
  have rest: "list_all P (fst (login_run cfg pre ?w'))"
  proof (rule Cons.IH [OF w' _ _ fin])
    show "\<forall>(tok, rq, d) \<in> set pre. client_ip rq = ip" using Cons.prems(2) by simp
    show "c + 1 + int (length pre) \<le> INT64_MAX" using Cons.prems(3) by simp
    fix tok' rq' d' w'' k
    assume h: "(tok', rq', d') \<in> set pre" "reachable w''" "counter w'' ip = k"
      "c + 1 \<le> k" "k < c + 1 + int (length pre)"
    from h(1) have m: "(tok', rq', d') \<in> set (a # pre)" by simp
    from h(4) have lo: "c \<le> k" by simp
    from h(5) have hi: "k < c + int (length (a # pre))" by simp
    show "P (fst (serve (login cfg tok') rq' w''))"
      by (rule Cons.prems(5) [OF m h(2) h(3) lo hi])
  qed
  from first rest show ?case
    by (simp add: a login_run_Cons del: login_run.simps)
qed

lemma list_all_eq_replicate: "list_all (\<lambda>r. r = x) rs \<Longrightarrow> rs = replicate (length rs) x"
  by (induction rs) simp_all

lemma serve_login_refused:
  assumes "reachable w" and "counter w ip = k" and "k < INT64_MAX"
    and "API_RATE_LIMIT cfg < k + 1" and "client_ip rq = ip"
  shows "serve (login cfg tok) rq w =
           (too_many, w\<lparr>kv := (kv w)(rl_key ip \<mapsto> (k + 1, Some (now w + 60000)))\<rparr>)"
proof -
  from assms(2,3) have lt: "counter w ip < INT64_MAX" by simp
  have "rate_limit_login cfg (client_ip rq) w =
      (Inr False, w\<lparr>kv := (kv w)(rl_key ip \<mapsto> (k + 1, Some (now w + 60000)))\<rparr>)"
    using assms(2,4,5) by (simp add: rate_limit_login_step [OF assms(1) lt])
  then show ?thesis
    by (simp add: serve_def login_refused)
qed

lemma serve_login_allowed:
  assumes "reachable w" and "counter w ip = k" and "k < INT64_MAX"
    and "k + 1 \<le> API_RATE_LIMIT cfg" and "client_ip rq = ip"
  shows "rate_limit_login cfg (client_ip rq) w =
           (Inr True, w\<lparr>kv := (kv w)(rl_key ip \<mapsto> (k + 1, Some (now w + 60000)))\<rparr>)"
proof -
  from assms(2,3) have lt: "counter w ip < INT64_MAX" by simp
  show ?thesis
    using assms(2,4,5) by (simp add: rate_limit_login_step [OF assms(1) lt])
qed

lemma serve_login_wrong:
  assumes "reachable w" and "counter w ip = k" and "k < INT64_MAX"
    and "k + 1 \<le> API_RATE_LIMIT cfg" and "client_ip rq = ip"
    and "submitted_key rq \<noteq> or_else (UNIVERSAL_KEY cfg) []"
    and "isascii (submitted_key rq)" and "isascii (or_else (UNIVERSAL_KEY cfg) [])"
  shows "fst (serve (login cfg tok) rq w) = wrong_key"
  by (simp add: serve_def
      login_wrong_key [OF serve_login_allowed [OF assms(1-5)] assms(6-8)])

lemma serve_login_right:
  assumes "reachable w" and "counter w ip = k" and "k < INT64_MAX"
    and "k + 1 \<le> API_RATE_LIMIT cfg" and "client_ip rq = ip"
    and "submitted_key rq = or_else (UNIVERSAL_KEY cfg) []"
    and "isascii (submitted_key rq)" and "0 < SESSION_TTL_SECONDS cfg"
  shows "status (fst (serve (login cfg tok) rq w)) = 302"
proof -
  let ?w1 = "w\<lparr>kv := (kv w)(rl_key ip \<mapsto> (k + 1, Some (now w + 60000)))\<rparr>"
  have up1: "reachable ?w1" using assms(1) by simp
  have eq: "consttime_eq (submitted_key rq) (UNIVERSAL_KEY cfg) = Inr True"
    using assms(6,7) by (simp add: consttime_eq_ascii)
  show ?thesis
    by (simp add: serve_def login_allowed [OF serve_login_allowed [OF assms(1-5)]] eq
        session_set_reachable [OF up1 assms(8)] set_session_cookie_def redirect_def)
qed

lemma in_window_start:
  "reachable w \<Longrightarrow> lookup w (rl_key ip) = None \<Longrightarrow> in_window ip 0 (now w) w"
  by (simp add: in_window_def)

lemma login_now_upper: "now (snd (login cfg tok rq w)) \<le> now w + 400"
  using login_cases [of cfg tok rq w]
  by (auto simp: rate_limit_now session_set_now advance_def)

lemma login_run_now_upper:
  "now (snd (login_run cfg pre w)) \<le> now w + sum_list (map (\<lambda>(tok, rq, d). 400 + d) pre)"
proof (induction pre arbitrary: w)
  case Nil
  show ?case by simp
next
  case (Cons a pre)
  obtain tok rq d where a: "a = (tok, rq, d)" by (cases a)
  let ?w' = "advance d (snd (serve (login cfg tok) rq w))"
  have "now ?w' \<le> now w + 400 + d"
    using login_now_upper [of cfg tok rq w] by (simp add: serve_snd advance_def)
  with Cons.IH [of ?w'] show ?case
    by (simp add: a login_run_Cons del: login_run.simps)
qed

text \<open>
  Claim C3. Let the store answer and hold no counter for the address \<open>ip\<close> when the
  first request arrives, and let \<open>pre\<close> be \<open>API_RATE_LIMIT\<close> login requests of that
  address, with any keys, served one after the other, such that the next request of the
  address arrives less than 60 seconds after the first. Then this next request, whatever
  key it carries (the correct one included), is answered 429 with the localized message
  and no cookie, and it changes no session key: only the counter moves to the limit plus
  one. Nothing is assumed about the keys of \<open>pre\<close>, so successful logins count like
  failed ones: when all of \<open>pre\<close> carry the correct key they are all answered 302 and the
  next request is refused all the same. When all of \<open>pre\<close> carry a wrong key (ASCII, as
  the comparison requires), each of them is answered 401 with the localized message. With
  the default limit of 8 these are the requests 1 to 8 and the refused request is the 9th.
\<close>

theorem login_rate_limited:
  assumes up: "reachable w0"
    and fresh: "lookup w0 (rl_key ip) = None"
    and lim: "API_RATE_LIMIT cfg < INT64_MAX"
    and len: "int (length pre) = API_RATE_LIMIT cfg"
    and pre_ip: "\<forall>(tok, rq, d) \<in> set pre. client_ip rq = ip"
    and rq_ip: "client_ip rq = ip"
    and window: "now (snd (login_run cfg pre w0)) < now w0 + 60000"
  shows "serve (login cfg tok) rq (snd (login_run cfg pre w0)) =
           (\<lparr>status = 429,
             body = Text ''Terlalu banyak percobaan gagal. Coba lagi setelah sesaat.'',
             headers = [], set_cookies = []\<rparr>,
            (snd (login_run cfg pre w0))
              \<lparr>kv := (kv (snd (login_run cfg pre w0)))
                 (rl_key ip \<mapsto>
                    (API_RATE_LIMIT cfg + 1,
                     Some (now (snd (login_run cfg pre w0)) + 60000)))\<rparr>)
    \<and> (\<forall>sid. kv (snd (serve (login cfg tok) rq (snd (login_run cfg pre w0))))
                (SESS_PREFIX @ sid)
              = kv (snd (login_run cfg pre w0)) (SESS_PREFIX @ sid))
    \<and> ((\<forall>(tok, rq, d) \<in> set pre.
           submitted_key rq \<noteq> or_else (UNIVERSAL_KEY cfg) []
           \<and> isascii (submitted_key rq) \<and> isascii (or_else (UNIVERSAL_KEY cfg) [])) \<longrightarrow>
         fst (login_run cfg pre w0) =
           replicate (length pre)
             \<lparr>status = 401, body = Text ''Kode akses salah.'', headers = [],
              set_cookies = []\<rparr>)
    \<and> ((\<forall>(tok, rq, d) \<in> set pre.
           submitted_key rq = or_else (UNIVERSAL_KEY cfg) [] \<and> isascii (submitted_key rq))
         \<and> 0 < SESSION_TTL_SECONDS cfg \<longrightarrow>
         length (fst (login_run cfg pre w0)) = length pre
         \<and> list_all (\<lambda>r. status r = 302) (fst (login_run cfg pre w0)))"
proof -
  let ?w1 = "snd (login_run cfg pre w0)"
  let ?L = "API_RATE_LIMIT cfg"
  have start: "in_window ip 0 (now w0) w0" by (rule in_window_start [OF up fresh])
  have bound: "0 + int (length pre) \<le> INT64_MAX" using len lim by simp
  have win: "in_window ip (0 + int (length pre)) (now w0) ?w1"
    by (rule login_run_window [OF start pre_ip bound window])
  then have up1: "reachable ?w1" by (simp add: in_window_def)
  have cnt: "counter ?w1 ip = ?L"
    using in_window_counter [OF win window] len by simp
  have over: "?L < ?L + 1" by simp
  have refused: "serve (login cfg tok) rq ?w1 =
      (too_many, ?w1\<lparr>kv := (kv ?w1)(rl_key ip \<mapsto> (?L + 1, Some (now ?w1 + 60000)))\<rparr>)"
    by (rule serve_login_refused [OF up1 cnt lim over rq_ip])
  have part1: "serve (login cfg tok) rq ?w1 =
           (\<lparr>status = 429,
             body = Text ''Terlalu banyak percobaan gagal. Coba lagi setelah sesaat.'',
             headers = [], set_cookies = []\<rparr>,
            ?w1\<lparr>kv := (kv ?w1)(rl_key ip \<mapsto> (?L + 1, Some (now ?w1 + 60000)))\<rparr>)"
    using refused by (simp add: too_many_def text_response_def)
  have part2: "\<forall>sid. kv (snd (serve (login cfg tok) rq ?w1)) (SESS_PREFIX @ sid)
              = kv ?w1 (SESS_PREFIX @ sid)"
    by (simp add: refused sess_key_not_rl)
  have part3: "fst (login_run cfg pre w0) =
           replicate (length pre)
             \<lparr>status = 401, body = Text ''Kode akses salah.'', headers = [],
              set_cookies = []\<rparr>"
    if wrong: "\<forall>(tok, rq, d) \<in> set pre.
           submitted_key rq \<noteq> or_else (UNIVERSAL_KEY cfg) []
           \<and> isascii (submitted_key rq) \<and> isascii (or_else (UNIVERSAL_KEY cfg) [])"
  proof -
    have "list_all (\<lambda>r. r = wrong_key) (fst (login_run cfg pre w0))"
    proof (rule login_run_responses [OF start pre_ip bound window])
      fix tok' rq' d' w' k
      assume m: "(tok', rq', d') \<in> set pre" and r: "reachable w'"
        and c: "counter w' ip = k" and k: "0 \<le> k" "k < 0 + int (length pre)"
      from k len lim have k1: "k < INT64_MAX" and k2: "k + 1 \<le> ?L" by simp_all
      from m pre_ip have i: "client_ip rq' = ip" by auto
      from m wrong have x: "submitted_key rq' \<noteq> or_else (UNIVERSAL_KEY cfg) []"
        "isascii (submitted_key rq')" "isascii (or_else (UNIVERSAL_KEY cfg) [])"
        by auto
      show "fst (serve (login cfg tok') rq' w') = wrong_key"
        by (rule serve_login_wrong [OF r c k1 k2 i x])
    qed
    from list_all_eq_replicate [OF this] show ?thesis
      by (simp add: login_run_length wrong_key_def text_response_def)
  qed
  have part4: "length (fst (login_run cfg pre w0)) = length pre
         \<and> list_all (\<lambda>r. status r = 302) (fst (login_run cfg pre w0))"
    if right: "(\<forall>(tok, rq, d) \<in> set pre.
           submitted_key rq = or_else (UNIVERSAL_KEY cfg) [] \<and> isascii (submitted_key rq))
         \<and> 0 < SESSION_TTL_SECONDS cfg"
  proof -
    have "list_all (\<lambda>r. status r = 302) (fst (login_run cfg pre w0))"
    proof (rule login_run_responses [OF start pre_ip bound window])
      fix tok' rq' d' w' k
      assume m: "(tok', rq', d') \<in> set pre" and r: "reachable w'"
        and c: "counter w' ip = k" and k: "0 \<le> k" "k < 0 + int (length pre)"
      from k len lim have k1: "k < INT64_MAX" and k2: "k + 1 \<le> ?L" by simp_all
      from m pre_ip have i: "client_ip rq' = ip" by auto
      from m right have x: "submitted_key rq' = or_else (UNIVERSAL_KEY cfg) []"
        "isascii (submitted_key rq')" by auto
      from right have t: "0 < SESSION_TTL_SECONDS cfg" by simp
      show "status (fst (serve (login cfg tok') rq' w')) = 302"
        by (rule serve_login_right [OF r c k1 k2 i x t])
    qed
    then show ?thesis by (simp add: login_run_length)
  qed
  from part1 part2 part3 part4 show ?thesis by blast
qed

theorem login_rate_limited_witness:
  "reachable start_world
   \<and> lookup start_world (rl_key ''10.0.0.1'') = None
   \<and> API_RATE_LIMIT demo_config = 8
   \<and> length wrong_attempts = 8
   \<and> list_all (\<lambda>(tok, rq, d). client_ip rq = ''10.0.0.1''
         \<and> submitted_key rq \<noteq> or_else (UNIVERSAL_KEY demo_config) []) wrong_attempts
   \<and> submitted_key (login_request ''s3cret'') = or_else (UNIVERSAL_KEY demo_config) []
   \<and> now (snd (login_run demo_config wrong_attempts start_world)) < now start_world + 60000
   \<and> fst (login_run demo_config wrong_attempts start_world) =
       replicate 8
         \<lparr>status = 401, body = Text ''Kode akses salah.'', headers = [], set_cookies = []\<rparr>
   \<and> fst (serve (login demo_config ''t9'') (login_request ''s3cret'')
        (snd (login_run demo_config wrong_attempts start_world))) =
       \<lparr>status = 429,
        body = Text ''Terlalu banyak percobaan gagal. Coba lagi setelah sesaat.'',
        headers = [], set_cookies = []\<rparr>"
proof -
  let ?ip = "''10.0.0.1''"
  have up: "reachable start_world" by (simp add: start_world_def)
  have fresh: "lookup start_world (rl_key ?ip) = None"
    by (simp add: start_world_def lookup_def live_def)
  have l8: "API_RATE_LIMIT demo_config = 8" by (simp add: sample_defs)
  have lim: "API_RATE_LIMIT demo_config < INT64_MAX" by (simp add: sample_defs INT64_MAX_def)
  have n8: "length wrong_attempts = 8" by (simp add: wrong_attempts_def)
  have len: "int (length wrong_attempts) = API_RATE_LIMIT demo_config"
    by (simp add: n8 l8)
  have ipw: "client_ip (login_request ''guess'') = ?ip"
    by (simp add: client_ip_def or_else_def login_request_def)
  have kw: "submitted_key (login_request ''guess'') \<noteq> or_else (UNIVERSAL_KEY demo_config) []"
    "isascii (submitted_key (login_request ''guess''))"
    "isascii (or_else (UNIVERSAL_KEY demo_config) [])"
    by (simp_all add: submitted_key_def or_else_def isascii_def sample_defs)
  have pre_ip: "\<forall>(tok, rq, d) \<in> set wrong_attempts. client_ip rq = ?ip"
    by (simp add: wrong_attempts_def ipw)
  have rq_ip: "client_ip (login_request ''s3cret'') = ?ip"
    by (simp add: client_ip_def or_else_def login_request_def)
  have ks: "submitted_key (login_request ''s3cret'') = or_else (UNIVERSAL_KEY demo_config) []"
    by (simp add: submitted_key_def or_else_def sample_defs)
  have "now (snd (login_run demo_config wrong_attempts start_world))
      \<le> now start_world + sum_list (map (\<lambda>(tok, rq, d). 400 + d) wrong_attempts)"
    by (rule login_run_now_upper)
  also have "\<dots> = now start_world + 11200"
    by (simp add: wrong_attempts_def sum_list_replicate)
  finally have window:
    "now (snd (login_run demo_config wrong_attempts start_world)) < now start_world + 60000"
    by simp
  have wrong: "\<forall>(tok, rq, d) \<in> set wrong_attempts.
      submitted_key rq \<noteq> or_else (UNIVERSAL_KEY demo_config) []
      \<and> isascii (submitted_key rq) \<and> isascii (or_else (UNIVERSAL_KEY demo_config) [])"
    using kw by (simp add: wrong_attempts_def)
  have la: "list_all (\<lambda>(tok, rq, d). client_ip rq = ?ip
         \<and> submitted_key rq \<noteq> or_else (UNIVERSAL_KEY demo_config) []) wrong_attempts"
    using ipw kw(1) by (simp add: wrong_attempts_def list_all_iff)
  note t = login_rate_limited [OF up fresh lim len pre_ip rq_ip window, of "''t9''"]
  from t [THEN conjunct1]
  have r9: "fst (serve (login demo_config ''t9'') (login_request ''s3cret'')
        (snd (login_run demo_config wrong_attempts start_world))) =
       \<lparr>status = 429,
        body = Text ''Terlalu banyak percobaan gagal. Coba lagi setelah sesaat.'',
        headers = [], set_cookies = []\<rparr>"
    by simp
  from t [THEN conjunct2, THEN conjunct2, THEN conjunct1, THEN mp, OF wrong]
  have r18: "fst (login_run demo_config wrong_attempts start_world) =
       replicate 8
         \<lparr>status = 401, body = Text ''Kode akses salah.'', headers = [], set_cookies = []\<rparr>"
    by (simp add: n8)
  from up fresh l8 n8 la ks window r18 r9 show ?thesis by (intro conjI)
qed

end
